theory Spec2Isabelle
  imports Main "HOL-Library.Word" "HOL-Library.Code_Target_Numeral"
begin

section \<open>Values shared by both media backends\<close>

text \<open>
  A \<^verbatim>\<open>Buffer\<close> is a sequence of bytes. A rejected promise or a thrown exception is a
  value of \<open>exn\<close>: \<open>SystemError\<close> is what the \<^verbatim>\<open>fs\<close> module rejects with,
  \<open>TypeError\<close> what JavaScript throws on a property read of \<^verbatim>\<open>undefined\<close> (and what
  \<^verbatim>\<open>new URL\<close> throws), \<open>S3Error\<close> what the minio client rejects with or throws, and
  \<open>MediaBackendError\<close> the error class of the backends themselves, with its message.
  An \<^verbatim>\<open>async\<close> method is a function from the world before the call to its
  outcome (\<open>Inl\<close> a rejection, \<open>Inr\<close> the resolved value) and the world after it.
\<close>

type_synonym buffer = "8 word list"

datatype errno = ENOENT | EEXIST | ENOTDIR | EISDIR

datatype exn =
    SystemError errno
  | TypeError
  | S3Error string
  | MediaBackendError string

datatype log_entry =
    DebugEntry string string
  | LogEntry string string
  | ErrorEntry exn string

datatype node = File buffer | Dir

text \<open>
  The world outside the process: the file tree (a node for each canonical path, the list
  of names from the root), the working directory, the buckets of the object store, the
  computation of presigned URLs (which belongs to the minio client and is left open), and
  what the logger has written. A log entry keeps the message (for an error, the caught
  exception) and the name of the function; the context name the constructors give the
  logger is not part of it.
\<close>

record world =
  tree :: "string list \<Rightarrow> node option"
  cwd :: "string list"
  buckets :: "string \<Rightarrow> (string \<Rightarrow> buffer option) option"
  signer :: "string \<Rightarrow> string \<Rightarrow> exn + string"
  logged :: "log_entry list"

definition quote :: char where
  "quote = CHR 0x27"

definition logger_debug :: "string \<Rightarrow> string \<Rightarrow> world \<Rightarrow> world" where
  "logger_debug message functionContext w = w\<lparr>logged := logged w @ [DebugEntry message functionContext]\<rparr>"

definition logger_log :: "string \<Rightarrow> string \<Rightarrow> world \<Rightarrow> world" where
  "logger_log message functionContext w = w\<lparr>logged := logged w @ [LogEntry message functionContext]\<rparr>"

definition logger_error :: "exn \<Rightarrow> string \<Rightarrow> world \<Rightarrow> world" where
  "logger_error e functionContext w = w\<lparr>logged := logged w @ [ErrorEntry e functionContext]\<rparr>"

section \<open>Node's \<^verbatim>\<open>path.join\<close> (POSIX flavour)\<close>

text \<open>
  \<^verbatim>\<open>path.join\<close> concatenates its non-empty arguments with a slash and normalises the
  result: empty and \<^verbatim>\<open>.\<close> segments are dropped, a \<^verbatim>\<open>..\<close> segment removes the segment
  before it when there is one that is not itself \<^verbatim>\<open>..\<close>, and is otherwise kept (relative
  path) or dropped (absolute path).
\<close>

fun split_slash :: "string \<Rightarrow> string list" where
  "split_slash [] = [[]]"
| "split_slash (c # cs) =
     (if c = CHR ''/'' then [] # split_slash cs
      else (case split_slash cs of [] \<Rightarrow> [[c]] | s # ss \<Rightarrow> (c # s) # ss))"

fun join_slash :: "string list \<Rightarrow> string" where
  "join_slash [] = []"
| "join_slash [s] = s"
| "join_slash (s # t # ts) = s @ CHR ''/'' # join_slash (t # ts)"

definition normalize_step :: "bool \<Rightarrow> string list \<Rightarrow> string \<Rightarrow> string list" where
  "normalize_step allowAboveRoot res seg =
     (if seg = [] \<or> seg = ''.'' then res
      else if seg = ''..'' then
        (if res \<noteq> [] \<and> last res \<noteq> ''..'' then butlast res
         else if allowAboveRoot then res @ [''..'']
         else res)
      else res @ [seg])"

definition normalize_segments :: "bool \<Rightarrow> string list \<Rightarrow> string list" where
  "normalize_segments allowAboveRoot segs = foldl (normalize_step allowAboveRoot) [] segs"

definition normalizeString :: "string \<Rightarrow> bool \<Rightarrow> string" where
  "normalizeString path allowAboveRoot =
     join_slash (normalize_segments allowAboveRoot (split_slash path))"

definition normalize_path :: "string \<Rightarrow> string" where
  "normalize_path path =
     (if path = [] then ''.''
      else
        (let isAbsolute = (hd path = CHR ''/'');
             trailingSeparator = (last path = CHR ''/'');
             p = normalizeString path (\<not> isAbsolute)
         in if p = [] then (if isAbsolute then ''/'' else if trailingSeparator then ''./'' else ''.'')
            else (if isAbsolute then ''/'' else []) @ p @ (if trailingSeparator then ''/'' else [])))"

definition path_join :: "string \<Rightarrow> string \<Rightarrow> string" where
  "path_join a b =
     (let joined = (if a = [] then b else if b = [] then a else a @ CHR ''/'' # b)
      in if joined = [] then ''.'' else normalize_path joined)"

section \<open>The \<^verbatim>\<open>fs\<close> promises the backend calls\<close>

text \<open>
  A path is resolved the way the kernel does it: from the root when it starts with a
  slash, from the working directory otherwise, one segment at a time, and every
  directory that is passed through must exist and be a directory. Trailing slashes are
  removed first; they only demand that the path names a directory. The model has no
  symbolic links, no permissions and no quotas.
\<close>

fun walk :: "(string list \<Rightarrow> node option) \<Rightarrow> string list \<Rightarrow> string list \<Rightarrow> errno + string list" where
  "walk t cur [] = Inr cur"
| "walk t cur (s # ss) =
     (case t cur of
        None \<Rightarrow> Inl ENOENT
      | Some (File _) \<Rightarrow> Inl ENOTDIR
      | Some Dir \<Rightarrow>
          walk t (if s = [] \<or> s = ''.'' then cur
                  else if s = ''..'' then butlast cur
                  else cur @ [s]) ss)"

definition strip_trailing :: "string list \<Rightarrow> string list" where
  "strip_trailing segs = rev (dropWhile (\<lambda>s. s = []) (rev segs))"

definition resolve :: "world \<Rightarrow> string \<Rightarrow> errno + string list" where
  "resolve w path =
     (if path = [] then Inl ENOENT
      else walk (tree w) (if hd path = CHR ''/'' then [] else cwd w)
             (strip_trailing (split_slash path)))"

definition trailing_slash :: "string \<Rightarrow> bool" where
  "trailing_slash path = (path \<noteq> [] \<and> last path = CHR ''/'')"

definition fs_access :: "string \<Rightarrow> world \<Rightarrow> exn + unit" where
  "fs_access path w =
     (case resolve w path of
        Inl e \<Rightarrow> Inl (SystemError e)
      | Inr k \<Rightarrow>
          (case tree w k of
             None \<Rightarrow> Inl (SystemError ENOENT)
           | Some Dir \<Rightarrow> Inr ()
           | Some (File _) \<Rightarrow> if trailing_slash path then Inl (SystemError ENOTDIR) else Inr ()))"

definition fs_mkdir :: "string \<Rightarrow> world \<Rightarrow> exn + world" where
  "fs_mkdir path w =
     (case resolve w path of
        Inl e \<Rightarrow> Inl (SystemError e)
      | Inr k \<Rightarrow>
          (case tree w k of
             Some _ \<Rightarrow> Inl (SystemError EEXIST)
           | None \<Rightarrow> Inr (w\<lparr>tree := (tree w)(k \<mapsto> Dir)\<rparr>)))"

definition fs_writeFile :: "string \<Rightarrow> buffer \<Rightarrow> world \<Rightarrow> exn + world" where
  "fs_writeFile path data w =
     (case resolve w path of
        Inl e \<Rightarrow> Inl (SystemError e)
      | Inr k \<Rightarrow>
          (if trailing_slash path then Inl (SystemError EISDIR)
           else (case tree w k of
                   Some Dir \<Rightarrow> Inl (SystemError EISDIR)
                 | _ \<Rightarrow> Inr (w\<lparr>tree := (tree w)(k \<mapsto> File data)\<rparr>))))"

definition fs_unlink :: "string \<Rightarrow> world \<Rightarrow> exn + world" where
  "fs_unlink path w =
     (case resolve w path of
        Inl e \<Rightarrow> Inl (SystemError e)
      | Inr k \<Rightarrow>
          (case tree w k of
             None \<Rightarrow> Inl (SystemError ENOENT)
           | Some Dir \<Rightarrow> Inl (SystemError EISDIR)
           | Some (File _) \<Rightarrow>
               if trailing_slash path then Inl (SystemError ENOTDIR)
               else Inr (w\<lparr>tree := (tree w)(k := None)\<rparr>)))"

text \<open>
  The backend never reads a file back; \<open>fs_readFile\<close> is the observation "a read of
  that storage location" of the round-trip properties.
\<close>

definition fs_readFile :: "string \<Rightarrow> world \<Rightarrow> exn + buffer" where
  "fs_readFile path w =
     (case resolve w path of
        Inl e \<Rightarrow> Inl (SystemError e)
      | Inr k \<Rightarrow>
          (case tree w k of
             None \<Rightarrow> Inl (SystemError ENOENT)
           | Some Dir \<Rightarrow> Inl (SystemError EISDIR)
           | Some (File data) \<Rightarrow>
               if trailing_slash path then Inl (SystemError ENOTDIR) else Inr data))"

section \<open>FilesystemBackend\<close>

datatype backend_type = FILESYSTEM | S3

record s3_config =
  accessKeyId :: string
  secretAccessKey :: string
  bucket :: string
  endPoint :: string
  region :: string
  pathStyle :: bool

record media_config =
  use :: backend_type
  filesystem_uploadPath :: string
  s3 :: s3_config

record filesystem_backend =
  uploadDirectory :: string

definition FilesystemBackend :: "media_config \<Rightarrow> filesystem_backend" where
  "FilesystemBackend mediaConfig = \<lparr>uploadDirectory = filesystem_uploadPath mediaConfig\<rparr>"

definition getFilePath :: "filesystem_backend \<Rightarrow> string \<Rightarrow> string" where
  "getFilePath this fileName = path_join (uploadDirectory this) fileName"

text \<open>The template literals of the log lines and of the error messages.\<close>

definition writing_to :: "string \<Rightarrow> string" where
  "writing_to filePath = ''Writing uploaded file to '' @ [quote] @ filePath @ [quote]"

definition ensuring_presence :: "string \<Rightarrow> string" where
  "ensuring_presence dir = ''Ensuring presence of directory at '' @ dir"

definition trying_to_create :: "string \<Rightarrow> string" where
  "trying_to_create dir =
     ''The directory '' @ [quote] @ dir @ [quote] @ '' can'' @ [quote]
       @ ''t be accessed. Trying to create the directory''"

definition could_not_create :: "string \<Rightarrow> string" where
  "could_not_create dir = ''Could not create '' @ [quote] @ dir @ [quote]"

definition could_not_save :: "string \<Rightarrow> string" where
  "could_not_save filePath = ''Could not save file '' @ [quote] @ filePath @ [quote]"

definition could_not_delete :: "string \<Rightarrow> string" where
  "could_not_delete filePath = ''Could not delete file '' @ [quote] @ filePath @ [quote]"

text \<open>
  \<^verbatim>\<open>ensureDirectory\<close> is suspended between the rejection of \<^verbatim>\<open>fs.access\<close> and the call of
  \<^verbatim>\<open>fs.mkdir\<close>; \<open>others\<close> is what the rest of the system does to the world in that
  time. A run without interference takes \<open>alone\<close>.
\<close>

definition alone :: "world \<Rightarrow> world" where
  "alone w = w"

definition ensureDirectory ::
  "filesystem_backend \<Rightarrow> (world \<Rightarrow> world) \<Rightarrow> world \<Rightarrow> (exn + unit) \<times> world" where
  "ensureDirectory this others w =
     (let w1 = logger_debug (ensuring_presence (uploadDirectory this)) ''ensureDirectory'' w
      in case fs_access (uploadDirectory this) w1 of
           Inr _ \<Rightarrow> (Inr (), w1)
         | Inl _ \<Rightarrow>
             (let w2 = logger_debug (trying_to_create (uploadDirectory this)) ''ensureDirectory'' w1
              in case fs_mkdir (uploadDirectory this) (others w2) of
                   Inr w3 \<Rightarrow> (Inr (), w3)
                 | Inl e \<Rightarrow>
                     (Inl (MediaBackendError (could_not_create (uploadDirectory this))),
                      logger_error e ''ensureDirectory'' (others w2))))"

definition saveFile ::
  "filesystem_backend \<Rightarrow> (world \<Rightarrow> world) \<Rightarrow> string \<Rightarrow> buffer \<Rightarrow> world \<Rightarrow> (exn + unit) \<times> world" where
  "saveFile this others uuid buffer w =
     (let filePath = getFilePath this uuid;
          w1 = logger_debug (writing_to filePath) ''saveFile'' w
      in case ensureDirectory this others w1 of
           (Inl e, w2) \<Rightarrow> (Inl e, w2)
         | (Inr _, w2) \<Rightarrow>
             (case fs_writeFile filePath buffer w2 of
                Inr w3 \<Rightarrow> (Inr (), w3)
              | Inl e \<Rightarrow>
                  (Inl (MediaBackendError (could_not_save filePath)),
                   logger_error e ''saveFile'' w2)))"

definition deleteFile ::
  "filesystem_backend \<Rightarrow> string \<Rightarrow> 'u \<Rightarrow> world \<Rightarrow> (exn + unit) \<times> world" where
  "deleteFile this uuid u w =
     (let filePath = getFilePath this uuid
      in case fs_unlink filePath w of
           Inr w1 \<Rightarrow> (Inr (), w1)
         | Inl e \<Rightarrow>
             (Inl (MediaBackendError (could_not_delete filePath)),
              logger_error e ''deleteFile'' w))"

definition getFileUrl ::
  "filesystem_backend \<Rightarrow> string \<Rightarrow> 'u \<Rightarrow> world \<Rightarrow> (exn + string) \<times> world" where
  "getFileUrl this uuid u w = (Inr (''/uploads/'' @ uuid), w)"

section \<open>S3Backend\<close>

text \<open>
  \<^verbatim>\<open>new URL(endPoint)\<close> is the platform's parser; the backend reads three string
  properties of its result. The parser itself is a parameter of the constructor below.
  The port is kept as the sequence of its UTF-16 code units, which is what \<^verbatim>\<open>parseInt\<close>
  reads.
\<close>

type_synonym code_unit = "16 word"

record url =
  url_protocol :: string
  url_hostname :: string
  url_port :: "code_unit list"

text \<open>
  A JavaScript number, as far as \<^verbatim>\<open>parseInt\<close> can return one: \<^verbatim>\<open>NaN\<close>, an integer
  that a double represents, the negative zero, or an infinity.
\<close>

datatype number = NaN | Number int | MinusZero | Infinity | MinusInfinity

text \<open>
  The double nearest to a natural number, ties to the even significand; \<open>None\<close> when
  that is beyond the largest double. A double has 53 significant binary digits.
\<close>

fun binary_digits :: "nat \<Rightarrow> nat" where
  "binary_digits n = (if n = 0 then 0 else Suc (binary_digits (n div 2)))"

definition nearest_double :: "nat \<Rightarrow> nat option" where
  "nearest_double n =
     (if n < 2 ^ 53 then Some n
      else
        (let e = binary_digits n - 53;
             q = n div 2 ^ e;
             r = n mod 2 ^ e;
             m = (if 2 ^ e < 2 * r \<or> (2 * r = 2 ^ e \<and> odd q) then q + 1 else q)
         in if 2 ^ 1024 \<le> m * 2 ^ e then None else Some (m * 2 ^ e)))"

text \<open>
  \<^verbatim>\<open>parseInt\<close> with no radix: leading white space and line terminators are skipped
  (the code units of \<^verbatim>\<open>WhiteSpace\<close> and \<^verbatim>\<open>LineTerminator\<close> of the language), a sign is
  read, a \<^verbatim>\<open>0x\<close> prefix selects radix 16, and the longest prefix of digits is the
  numeral; with no digit the result is \<^verbatim>\<open>NaN\<close>, and otherwise the number value of
  the signed integer the numeral writes (the double nearest to it). The language lets an
  engine replace the digits after the 20th of a decimal numeral by zeros; the value taken
  here is the exact one, and the two agree on every numeral of at most 20 digits.
\<close>

definition is_space :: "code_unit \<Rightarrow> bool" where
  "is_space c =
     (c \<in> set [0x0009, 0x000A, 0x000B, 0x000C, 0x000D, 0x0020, 0x00A0, 0x1680,
               0x2000, 0x2001, 0x2002, 0x2003, 0x2004, 0x2005, 0x2006, 0x2007, 0x2008,
               0x2009, 0x200A, 0x2028, 0x2029, 0x202F, 0x205F, 0x3000, 0xFEFF])"

definition digit_of :: "code_unit \<Rightarrow> nat option" where
  "digit_of c =
     (let n = unat c
      in if 48 \<le> n \<and> n \<le> 57 then Some (n - 48)
         else if 97 \<le> n \<and> n \<le> 122 then Some (n - 87)
         else if 65 \<le> n \<and> n \<le> 90 then Some (n - 55)
         else None)"

definition is_digit_in :: "nat \<Rightarrow> code_unit \<Rightarrow> bool" where
  "is_digit_in R c = (case digit_of c of None \<Rightarrow> False | Some d \<Rightarrow> d < R)"

definition digits_value :: "nat \<Rightarrow> code_unit list \<Rightarrow> nat" where
  "digits_value R Z = foldl (\<lambda>a c. a * R + (case digit_of c of None \<Rightarrow> 0 | Some d \<Rightarrow> d)) 0 Z"

definition parseInt :: "code_unit list \<Rightarrow> number" where
  "parseInt string =
     (let S = dropWhile is_space string;
          negative = (S \<noteq> [] \<and> hd S = 0x2D);
          S1 = (if S \<noteq> [] \<and> (hd S = 0x2B \<or> hd S = 0x2D) then tl S else S);
          hex = (take 2 S1 = [0x30, 0x78] \<or> take 2 S1 = [0x30, 0x58]);
          R = (if hex then 16 else 10);
          S2 = (if hex then drop 2 S1 else S1);
          Z = takeWhile (is_digit_in R) S2;
          mathInt = digits_value R Z
      in if Z = [] then NaN
         else if mathInt = 0 then (if negative then MinusZero else Number 0)
         else
           (case nearest_double mathInt of
              None \<Rightarrow> (if negative then MinusInfinity else Infinity)
            | Some v \<Rightarrow> Number (if negative then - int v else int v)))"

text \<open>
  \<^verbatim>\<open>new Client(options)\<close> is the constructor of the minio library. It checks the
  options and throws on those it refuses (an end point that is no host name, a port out
  of range), so it is a parameter of the constructor below, like the URL parser; a
  client is represented by the options it holds. The requests of a client act on the
  object store of the world. A request on a bucket that does not exist is rejected;
  \<^verbatim>\<open>putObject\<close> replaces the object of that name, \<^verbatim>\<open>removeObject\<close> removes it, and
  \<^verbatim>\<open>presignedGetObject\<close> is the signing computation of the world.
\<close>

record client_options =
  opt_endPoint :: string
  opt_port :: "number option"
  opt_useSSL :: bool
  opt_accessKey :: string
  opt_secretKey :: string
  opt_pathStyle :: bool
  opt_region :: string

datatype client = Client client_options

definition putObject :: "client \<Rightarrow> string \<Rightarrow> string \<Rightarrow> buffer \<Rightarrow> world \<Rightarrow> exn + world" where
  "putObject c bucketName objectName data w =
     (case buckets w bucketName of
        None \<Rightarrow> Inl (S3Error ''NoSuchBucket'')
      | Some objects \<Rightarrow>
          Inr (w\<lparr>buckets := (buckets w)(bucketName \<mapsto> objects(objectName \<mapsto> data))\<rparr>))"

definition removeObject :: "client \<Rightarrow> string \<Rightarrow> string \<Rightarrow> world \<Rightarrow> exn + world" where
  "removeObject c bucketName objectName w =
     (case buckets w bucketName of
        None \<Rightarrow> Inl (S3Error ''NoSuchBucket'')
      | Some objects \<Rightarrow>
          Inr (w\<lparr>buckets := (buckets w)(bucketName \<mapsto> objects(objectName := None))\<rparr>))"

definition presignedGetObject :: "client \<Rightarrow> string \<Rightarrow> string \<Rightarrow> world \<Rightarrow> exn + string" where
  "presignedGetObject c bucketName objectName w = signer w bucketName objectName"

text \<open>The observation "a read of that storage location" for the object store.\<close>

definition getObject :: "string \<Rightarrow> string \<Rightarrow> world \<Rightarrow> exn + buffer" where
  "getObject bucketName objectName w =
     (case buckets w bucketName of
        None \<Rightarrow> Inl (S3Error ''NoSuchBucket'')
      | Some objects \<Rightarrow>
          (case objects objectName of
             None \<Rightarrow> Inl (S3Error ''NoSuchKey'')
           | Some data \<Rightarrow> Inr data))"

text \<open>
  The fields \<^verbatim>\<open>config\<close> and \<^verbatim>\<open>client\<close> stay \<^verbatim>\<open>undefined\<close> (\<open>None\<close>) when the
  constructor returns early.
\<close>

record s3_backend =
  config :: "s3_config option"
  client :: "client option"

definition determinePort :: "url \<Rightarrow> number option" where
  "determinePort u = (let port = parseInt (url_port u) in if port = NaN then None else Some port)"

text \<open>
  The constructor. An exception of \<^verbatim>\<open>new URL\<close> or of \<^verbatim>\<open>new Client\<close> is not caught
  and leaves the constructor.
\<close>

definition S3Backend ::
  "(string \<Rightarrow> exn + url) \<Rightarrow> (client_options \<Rightarrow> exn + client) \<Rightarrow> media_config \<Rightarrow> exn + s3_backend" where
  "S3Backend new_URL new_Client mediaConfig =
     (if use mediaConfig \<noteq> S3 then Inr \<lparr>config = None, client = None\<rparr>
      else
        (let cfg = s3 mediaConfig
         in case new_URL (endPoint cfg) of
              Inl e \<Rightarrow> Inl e
            | Inr u \<Rightarrow>
                (let isSecure = (url_protocol u = ''https:'')
                 in case new_Client \<lparr>opt_endPoint = url_hostname u,
                                     opt_port = determinePort u,
                                     opt_useSSL = isSecure,
                                     opt_accessKey = accessKeyId cfg,
                                     opt_secretKey = secretAccessKey cfg,
                                     opt_pathStyle = pathStyle cfg,
                                     opt_region = region cfg\<rparr> of
                      Inl e \<Rightarrow> Inl e
                    | Inr c \<Rightarrow> Inr \<lparr>config = Some cfg, client = Some c\<rparr>)))"

text \<open>
  Inside each \<^verbatim>\<open>try\<close> block the call \<^verbatim>\<open>this.client.m(this.config.bucket, ...)\<close> reads a
  property of \<^verbatim>\<open>this.client\<close> and of \<^verbatim>\<open>this.config\<close>; on \<^verbatim>\<open>undefined\<close> that read
  throws a \<open>TypeError\<close>, which the \<^verbatim>\<open>catch\<close> of the same block receives.
\<close>

definition uploaded_file :: "string \<Rightarrow> string" where
  "uploaded_file uuid = ''Uploaded file '' @ uuid"

definition deleted_file :: "string \<Rightarrow> string" where
  "deleted_file uuid = ''Deleted uploaded file '' @ uuid"

definition s3_could_not_save :: "string \<Rightarrow> string" where
  "s3_could_not_save uuid = ''Could not save file '' @ uuid @ '' on S3''"

definition s3_could_not_delete :: "string \<Rightarrow> string" where
  "s3_could_not_delete uuid = ''Could not delete '' @ [quote] @ uuid @ [quote] @ '' on S3''"

definition s3_could_not_get_url :: "string \<Rightarrow> string" where
  "s3_could_not_get_url uuid = ''Could not get URL for '' @ [quote] @ uuid @ [quote] @ '' on S3''"

definition with_client :: "s3_backend \<Rightarrow> (client \<Rightarrow> string \<Rightarrow> exn + 'a) \<Rightarrow> exn + 'a" where
  "with_client this call =
     (case client this of
        None \<Rightarrow> Inl TypeError
      | Some c \<Rightarrow> (case config this of None \<Rightarrow> Inl TypeError | Some cfg \<Rightarrow> call c (bucket cfg)))"

definition s3_saveFile :: "s3_backend \<Rightarrow> string \<Rightarrow> buffer \<Rightarrow> world \<Rightarrow> (exn + unit) \<times> world" where
  "s3_saveFile this uuid buffer w =
     (case with_client this (\<lambda>c b. putObject c b uuid buffer w) of
        Inr w1 \<Rightarrow> (Inr (), logger_log (uploaded_file uuid) ''saveFile'' w1)
      | Inl e \<Rightarrow>
          (Inl (MediaBackendError (s3_could_not_save uuid)),
           logger_error e ''saveFile'' w))"

definition s3_deleteFile :: "s3_backend \<Rightarrow> string \<Rightarrow> 'u \<Rightarrow> world \<Rightarrow> (exn + unit) \<times> world" where
  "s3_deleteFile this uuid u w =
     (case with_client this (\<lambda>c b. removeObject c b uuid w) of
        Inr w1 \<Rightarrow> (Inr (), logger_log (deleted_file uuid) ''deleteFile'' w1)
      | Inl e \<Rightarrow>
          (Inl (MediaBackendError (s3_could_not_delete uuid)),
           logger_error e ''deleteFile'' w))"

definition s3_getFileUrl :: "s3_backend \<Rightarrow> string \<Rightarrow> 'u \<Rightarrow> world \<Rightarrow> (exn + string) \<times> world" where
  "s3_getFileUrl this uuid u w =
     (case with_client this (\<lambda>c b. presignedGetObject c b uuid w) of
        Inr link \<Rightarrow> (Inr link, w)
      | Inl e \<Rightarrow>
          (Inl (MediaBackendError (s3_could_not_get_url uuid)),
           logger_error e ''getFileUrl'' w))"

section \<open>A small world to run the backends in\<close>

text \<open>
  \<open>fresh_world\<close> has a root directory, which is also the working directory, and
  nothing else; its object store has no bucket. \<open>uploads_backend\<close> is the filesystem
  backend configured with the relative upload path \<^verbatim>\<open>uploads\<close>.
\<close>

definition fresh_world :: world where
  "fresh_world =
     \<lparr>tree = (\<lambda>k. if k = [] then Some Dir else None), cwd = [],
      buckets = (\<lambda>b. None), signer = (\<lambda>b k. Inr (''https://s3.example/'' @ b @ ''/'' @ k)),
      logged = []\<rparr>"

definition uploads_backend :: filesystem_backend where
  "uploads_backend = \<lparr>uploadDirectory = ''uploads''\<rparr>"

text \<open>
  \<open>media_world\<close> is \<open>fresh_world\<close> with an empty bucket \<^verbatim>\<open>media\<close>;
  \<open>media_config\<close> selects the S3 backend with that bucket, \<open>local_config\<close> is the
  same with an endpoint that names no port and \<open>bracket_config\<close> the same with an
  endpoint whose host is an IPv6 address; \<open>one_URL\<close> parses these three endpoints, and
  \<open>checking_Client\<close> is a client constructor that refuses a host name with a bracket.
  \<open>media_backend\<close> is the backend that \<open>media_config\<close> gives.
\<close>

definition media_world :: world where
  "media_world = fresh_world\<lparr>buckets := (\<lambda>b. if b = ''media'' then Some (\<lambda>k. None) else None)\<rparr>"

definition media_config :: media_config where
  "media_config =
     \<lparr>use = S3, filesystem_uploadPath = ''uploads'',
      s3 = \<lparr>accessKeyId = ''key'', secretAccessKey = ''secret'', bucket = ''media'',
            endPoint = ''https://s3.example.org:9000'', region = ''us-east-1'',
            pathStyle = True\<rparr>\<rparr>"

definition one_URL :: "string \<Rightarrow> exn + url" where
  "one_URL input =
     (if input = ''https://s3.example.org:9000''
      then Inr \<lparr>url_protocol = ''https:'', url_hostname = ''s3.example.org'',
                url_port = [0x39, 0x30, 0x30, 0x30]\<rparr>
      else if input = ''http://minio.local''
      then Inr \<lparr>url_protocol = ''http:'', url_hostname = ''minio.local'', url_port = []\<rparr>
      else if input = ''http://[::1]:9000''
      then Inr \<lparr>url_protocol = ''http:'', url_hostname = ''[::1]'',
                url_port = [0x39, 0x30, 0x30, 0x30]\<rparr>
      else Inl TypeError)"

definition checking_Client :: "client_options \<Rightarrow> exn + client" where
  "checking_Client options =
     (if CHR ''['' \<in> set (opt_endPoint options) then Inl (S3Error ''InvalidEndpointError'')
      else Inr (Client options))"

definition local_config :: media_config where
  "local_config = media_config\<lparr>s3 := (s3 media_config)\<lparr>endPoint := ''http://minio.local''\<rparr>\<rparr>"

definition bracket_config :: media_config where
  "bracket_config = media_config\<lparr>s3 := (s3 media_config)\<lparr>endPoint := ''http://[::1]:9000''\<rparr>\<rparr>"

definition media_client :: client where
  "media_client =
     Client \<lparr>opt_endPoint = ''s3.example.org'', opt_port = Some (Number 9000), opt_useSSL = True,
             opt_accessKey = ''key'', opt_secretKey = ''secret'', opt_pathStyle = True,
             opt_region = ''us-east-1''\<rparr>"

definition media_backend :: s3_backend where
  "media_backend = \<lparr>config = Some (s3 media_config), client = Some media_client\<rparr>"

text \<open>
  \<open>creating_uploads\<close> is another actor that creates the directory \<^verbatim>\<open>uploads\<close> in the
  working directory of \<open>fresh_world\<close>.
\<close>

definition creating_uploads :: "world \<Rightarrow> world" where
  "creating_uploads w = w\<lparr>tree := (tree w)([''uploads''] \<mapsto> Dir)\<rparr>"

section \<open>Observations used to state the properties\<close>

definition file_exists :: "string \<Rightarrow> world \<Rightarrow> bool" where
  "file_exists path w = (\<not> isl (fs_readFile path w))"

definition is_directory :: "string \<Rightarrow> world \<Rightarrow> bool" where
  "is_directory path w = (case resolve w path of Inl e \<Rightarrow> False | Inr k \<Rightarrow> tree w k = Some Dir)"

text \<open>
  The world in which \<^verbatim>\<open>saveFile\<close> calls \<^verbatim>\<open>fs.mkdir\<close>, when it calls it: the world of the
  call with the three debug lines written by then, changed by the other actors.
\<close>

definition at_mkdir :: "filesystem_backend \<Rightarrow> (world \<Rightarrow> world) \<Rightarrow> string \<Rightarrow> world \<Rightarrow> world" where
  "at_mkdir this others uuid w =
     others
      (logger_debug (trying_to_create (uploadDirectory this)) ''ensureDirectory''
        (logger_debug (ensuring_presence (uploadDirectory this)) ''ensureDirectory''
          (logger_debug (writing_to (getFilePath this uuid)) ''saveFile'' w)))"

text \<open>
  The \<^verbatim>\<open>port\<close> property of a URL object is the empty string or the shortest decimal
  numeral of the port number; \<open>decimal\<close> writes that numeral.
\<close>

definition digit_char :: "nat \<Rightarrow> code_unit" where
  "digit_char d = [0x30, 0x31, 0x32, 0x33, 0x34, 0x35, 0x36, 0x37, 0x38, 0x39] ! d"

fun decimal :: "nat \<Rightarrow> code_unit list" where
  "decimal n = (if n < 10 then [digit_char n] else decimal (n div 10) @ [digit_char (n mod 10)])"

definition plain_digit :: "code_unit \<Rightarrow> bool" where
  "plain_digit c = (c \<in> set [0x30, 0x31, 0x32, 0x33, 0x34, 0x35, 0x36, 0x37, 0x38, 0x39])"

section \<open>Notions used to state where a path lies\<close>

text \<open>
  A plain name is a file name: not empty, not a dot segment, and without a slash.
  \<open>canonical_segments\<close> is the list of segments \<^verbatim>\<open>path.join\<close> reduces a directory path
  to. A normalised path lies directly under a directory when its segments are those of
  the directory followed by one plain name. Every node but the root of a well-formed
  tree lies in a directory.
\<close>

definition plain_name :: "string \<Rightarrow> bool" where
  "plain_name a = (a \<noteq> [] \<and> a \<noteq> ''.'' \<and> a \<noteq> ''..'' \<and> CHR ''/'' \<notin> set a)"

definition is_absolute :: "string \<Rightarrow> bool" where
  "is_absolute path = (path \<noteq> [] \<and> hd path = CHR ''/'')"

definition canonical_segments :: "string \<Rightarrow> string list" where
  "canonical_segments path = normalize_segments (\<not> is_absolute path) (split_slash path)"

text \<open>What the normalisation keeps: segments that are not empty, not a dot, slash-free.\<close>

definition kept_segment :: "string \<Rightarrow> bool" where
  "kept_segment s = (s \<noteq> [] \<and> s \<noteq> ''.'' \<and> CHR ''/'' \<notin> set s)"

text \<open>The string \<^verbatim>\<open>path.join\<close> normalises, and its segments.\<close>

definition joined :: "string \<Rightarrow> string \<Rightarrow> string" where
  "joined a b = (if a = [] then b else if b = [] then a else a @ CHR ''/'' # b)"

text \<open>
  The joined path of a directory and an identifier that neither starts nor ends with a
  slash, as long as some segment is left: the segments the identifier turns the
  directory's segments into, after a slash when the directory is absolute.
\<close>

definition joined_segments :: "string \<Rightarrow> string \<Rightarrow> string list" where
  "joined_segments dir uuid =
     foldl (normalize_step (\<not> is_absolute dir)) (canonical_segments dir) (split_slash uuid)"

definition directly_under :: "string \<Rightarrow> string \<Rightarrow> bool" where
  "directly_under dir path =
     (let S = split_slash path;
          N = (if is_absolute dir then [[]] else []) @ canonical_segments dir
      in is_absolute path = is_absolute dir \<and> S \<noteq> [] \<and> butlast S = N \<and> plain_name (last S))"

definition is_root :: "string \<Rightarrow> bool" where
  "is_root dir = (is_absolute dir \<and> canonical_segments dir = [])"

definition well_formed :: "(string list \<Rightarrow> node option) \<Rightarrow> bool" where
  "well_formed t = (\<forall>k x. t (k @ [x]) \<noteq> None \<longrightarrow> t k = Some Dir)"

text \<open>
  \<open>uploads_is_a_file\<close> is \<open>fresh_world\<close> with a regular file where the upload
  directory should be.
\<close>

definition uploads_is_a_file :: world where
  "uploads_is_a_file = fresh_world\<lparr>tree := (tree fresh_world)([''uploads''] \<mapsto> File [9])\<rparr>"

text \<open>
  \<open>stocked_world\<close> is \<open>fresh_world\<close> with the directory \<^verbatim>\<open>uploads\<close> and two files
  in it.
\<close>

definition stocked_world :: world where
  "stocked_world =
     fresh_world\<lparr>tree := (tree fresh_world)
        ([''uploads''] \<mapsto> Dir, [''uploads'', ''xyz''] \<mapsto> File [7],
         [''uploads'', ''abc''] \<mapsto> File [8])\<rparr>"

section \<open>Facts about the file tree\<close>

lemma tree_logger [simp]:
  "tree (logger_debug m c w) = tree w"
  "tree (logger_log m c w) = tree w"
  "tree (logger_error e c w) = tree w"
  by (simp_all add: logger_debug_def logger_log_def logger_error_def)

lemma cwd_logger [simp]:
  "cwd (logger_debug m c w) = cwd w"
  "cwd (logger_log m c w) = cwd w"
  "cwd (logger_error e c w) = cwd w"
  by (simp_all add: logger_debug_def logger_log_def logger_error_def)

lemma buckets_logger [simp]:
  "buckets (logger_debug m c w) = buckets w"
  "buckets (logger_log m c w) = buckets w"
  "buckets (logger_error e c w) = buckets w"
  by (simp_all add: logger_debug_def logger_log_def logger_error_def)

text \<open>Resolution only looks at which paths are directories.\<close>

lemma walk_mono:
  "walk t cur ss = Inr k \<Longrightarrow> (\<And>q. t q = Some Dir \<Longrightarrow> t' q = Some Dir) \<Longrightarrow> walk t' cur ss = Inr k"
proof (induction ss arbitrary: cur)
  case Nil
  then show ?case by simp
next
  case (Cons s ss)
  from Cons.prems(1) have d: "t cur = Some Dir"
    by (auto split: option.splits node.splits)
  then have d': "t' cur = Some Dir" by (rule Cons.prems(2))
  from Cons.prems(1) d have
    "walk t (if s = [] \<or> s = ''.'' then cur else if s = ''..'' then butlast cur else cur @ [s]) ss = Inr k"
    by simp
  then have
    "walk t' (if s = [] \<or> s = ''.'' then cur else if s = ''..'' then butlast cur else cur @ [s]) ss = Inr k"
    by (rule Cons.IH) (rule Cons.prems(2))
  with d' show ?case by simp
qed

lemma resolve_mono:
  assumes "resolve w path = Inr k" and "cwd w' = cwd w"
    and "\<And>q. tree w q = Some Dir \<Longrightarrow> tree w' q = Some Dir"
  shows "resolve w' path = Inr k"
proof -
  from assms(1) have ne: "path \<noteq> []"
    by (auto simp: resolve_def)
  with assms(1) have
    "walk (tree w) (if hd path = CHR ''/'' then [] else cwd w) (strip_trailing (split_slash path)) = Inr k"
    by (simp add: resolve_def)
  then have
    "walk (tree w') (if hd path = CHR ''/'' then [] else cwd w) (strip_trailing (split_slash path)) = Inr k"
    by (rule walk_mono) (rule assms(3))
  with ne assms(2) show ?thesis by (auto simp: resolve_def)
qed

lemma resolve_logger [simp]:
  "resolve (logger_debug m c w) path = resolve w path"
  "resolve (logger_log m c w) path = resolve w path"
  "resolve (logger_error e c w) path = resolve w path"
  by (simp_all add: resolve_def)

lemma fs_access_logger [simp]:
  "fs_access path (logger_debug m c w) = fs_access path w"
  "fs_access path (logger_error e c w) = fs_access path w"
  by (simp_all add: fs_access_def cong: sum.case_cong option.case_cong)

lemma fs_readFile_logger [simp]:
  "fs_readFile path (logger_debug m c w) = fs_readFile path w"
  "fs_readFile path (logger_error e c w) = fs_readFile path w"
  by (simp_all add: fs_readFile_def cong: sum.case_cong option.case_cong)

lemma fs_access_Inr:
  "fs_access path w = Inr u \<longleftrightarrow>
     (\<exists>k. resolve w path = Inr k \<and>
          (tree w k = Some Dir \<or> (\<exists>d. tree w k = Some (File d)) \<and> \<not> trailing_slash path))"
  by (auto simp: fs_access_def split: sum.splits option.splits node.splits)

lemma fs_mkdir_Inr:
  "fs_mkdir path w = Inr w' \<longleftrightarrow>
     (\<exists>k. resolve w path = Inr k \<and> tree w k = None \<and> w' = w\<lparr>tree := (tree w)(k \<mapsto> Dir)\<rparr>)"
  by (auto simp: fs_mkdir_def split: sum.splits option.splits)

lemma fs_writeFile_Inr:
  "fs_writeFile path data w = Inr w' \<longleftrightarrow>
     (\<exists>k. resolve w path = Inr k \<and> \<not> trailing_slash path \<and> tree w k \<noteq> Some Dir
          \<and> w' = w\<lparr>tree := (tree w)(k \<mapsto> File data)\<rparr>)"
  by (auto simp: fs_writeFile_def split: sum.splits option.splits node.splits)

lemma fs_unlink_Inr:
  "fs_unlink path w = Inr w' \<longleftrightarrow>
     (\<exists>k d. resolve w path = Inr k \<and> \<not> trailing_slash path \<and> tree w k = Some (File d)
          \<and> w' = w\<lparr>tree := (tree w)(k := None)\<rparr>)"
  by (auto simp: fs_unlink_def split: sum.splits option.splits node.splits)

lemma fs_readFile_Inr:
  "fs_readFile path w = Inr data \<longleftrightarrow>
     (\<exists>k. resolve w path = Inr k \<and> \<not> trailing_slash path \<and> tree w k = Some (File data))"
  by (auto simp: fs_readFile_def split: sum.splits option.splits node.splits)

text \<open>What a fulfilled \<^verbatim>\<open>ensureDirectory\<close> and a fulfilled \<^verbatim>\<open>saveFile\<close> went through.\<close>

lemma ensureDirectory_Inr:
  assumes "ensureDirectory this others w = (Inr u, w')"
  shows "fs_access (uploadDirectory this) w' = Inr ()"
proof (cases "fs_access (uploadDirectory this) w")
  case (Inr x)
  with assms show ?thesis
    by (auto simp: ensureDirectory_def Let_def)
next
  case (Inl e)
  with assms obtain w2 where mk: "fs_mkdir (uploadDirectory this) w2 = Inr w'"
    by (auto simp: ensureDirectory_def Let_def split: sum.splits)
  then obtain k where k: "resolve w2 (uploadDirectory this) = Inr k"
    and w': "w' = w2\<lparr>tree := (tree w2)(k \<mapsto> Dir)\<rparr>" and fresh: "tree w2 k = None"
    by (auto simp: fs_mkdir_Inr)
  have "resolve w' (uploadDirectory this) = Inr k"
    using k by (rule resolve_mono) (auto simp: w' fresh)
  moreover have "tree w' k = Some Dir" by (simp add: w')
  ultimately show ?thesis by (auto simp: fs_access_Inr)
qed

lemma saveFile_Inr:
  assumes "saveFile this others uuid data w = (Inr u, w')"
  shows "\<exists>w1. ensureDirectory this others
                (logger_debug (writing_to (getFilePath this uuid)) ''saveFile'' w) = (Inr (), w1)
              \<and> fs_writeFile (getFilePath this uuid) data w1 = Inr w'"
  using assms by (auto simp: saveFile_def Let_def split: prod.splits sum.splits)

lemma written_then_read:
  assumes "fs_writeFile path data w = Inr w'"
  shows "fs_readFile path w' = Inr data"
proof -
  from assms obtain k where k: "resolve w path = Inr k" and ts: "\<not> trailing_slash path"
    and nd: "tree w k \<noteq> Some Dir" and w': "w' = w\<lparr>tree := (tree w)(k \<mapsto> File data)\<rparr>"
    by (auto simp: fs_writeFile_Inr)
  have "resolve w' path = Inr k"
    using k by (rule resolve_mono) (use nd in \<open>auto simp: w'\<close>)
  then show ?thesis using ts by (auto simp: fs_readFile_Inr w')
qed

lemma written_keeps_access:
  assumes "fs_writeFile path data w = Inr w'" and "fs_access dir w = Inr ()"
  shows "fs_access dir w' = Inr ()"
proof -
  from assms(1) obtain k where nd: "tree w k \<noteq> Some Dir"
    and w': "w' = w\<lparr>tree := (tree w)(k \<mapsto> File data)\<rparr>"
    by (auto simp: fs_writeFile_Inr)
  from assms(2) obtain kd where kd: "resolve w dir = Inr kd"
    and n: "tree w kd = Some Dir \<or> (\<exists>d. tree w kd = Some (File d)) \<and> \<not> trailing_slash dir"
    by (auto simp: fs_access_Inr)
  have "resolve w' dir = Inr kd"
    using kd by (rule resolve_mono) (use nd in \<open>auto simp: w'\<close>)
  moreover have "tree w' kd = Some Dir \<or> (\<exists>d. tree w' kd = Some (File d)) \<and> \<not> trailing_slash dir"
    using n nd by (auto simp: w')
  ultimately show ?thesis by (auto simp: fs_access_Inr)
qed

lemma uploadDirectory_uploads: "uploadDirectory uploads_backend = ''uploads''"
  by (simp add: uploads_backend_def)

lemma getFilePath_uploads_abc: "getFilePath uploads_backend ''abc'' = ''uploads/abc''"
  by (simp add: getFilePath_def uploads_backend_def path_join_def normalize_path_def normalizeString_def
      normalize_segments_def normalize_step_def)

lemma saveFile_fresh_world:
  "fst (saveFile uploads_backend alone ''abc'' [1, 2, 3] fresh_world) = Inr ()"
  by (simp add: saveFile_def ensureDirectory_def getFilePath_uploads_abc uploadDirectory_uploads
      fresh_world_def alone_def fs_access_def fs_mkdir_def fs_writeFile_def resolve_def
      strip_trailing_def trailing_slash_def logger_debug_def logger_error_def Let_def)

lemma saveFile_round_trip_aux:
  assumes "saveFile this others uuid content w = (Inr (), w')"
  shows "\<exists>w1. fs_writeFile (getFilePath this uuid) content w1 = Inr w'
           \<and> fs_access (uploadDirectory this) w' = Inr ()"
proof -
  from saveFile_Inr [OF assms] obtain w1
    where e: "ensureDirectory this others
               (logger_debug (writing_to (getFilePath this uuid)) ''saveFile'' w) = (Inr (), w1)"
      and wr: "fs_writeFile (getFilePath this uuid) content w1 = Inr w'"
    by blast
  have "fs_access (uploadDirectory this) w1 = Inr ()"
    using e by (rule ensureDirectory_Inr)
  with wr have "fs_access (uploadDirectory this) w' = Inr ()"
    by (rule written_keeps_access)
  with wr show ?thesis by blast
qed

lemma file_exists_iff:
  "file_exists path w \<longleftrightarrow>
     (\<exists>k d. resolve w path = Inr k \<and> \<not> trailing_slash path \<and> tree w k = Some (File d))"
proof -
  have "file_exists path w \<longleftrightarrow> (\<exists>d. fs_readFile path w = Inr d)"
    by (cases "fs_readFile path w") (simp_all add: file_exists_def)
  then show ?thesis by (auto simp: fs_readFile_Inr)
qed

lemma fs_unlink_file:
  assumes "file_exists path w"
  shows "\<exists>k. resolve w path = Inr k \<and> fs_unlink path w = Inr (w\<lparr>tree := (tree w)(k := None)\<rparr>)"
  using assms by (auto simp: file_exists_iff fs_unlink_Inr)

lemma fs_unlink_no_file:
  assumes "\<not> file_exists path w"
  shows "\<exists>e. fs_unlink path w = Inl e"
proof (cases "fs_unlink path w")
  case (Inl e)
  then show ?thesis by blast
next
  case (Inr w')
  then have "file_exists path w"
    by (auto simp: fs_unlink_Inr file_exists_iff)
  with assms show ?thesis by simp
qed

lemma unlinked_is_gone:
  assumes "resolve w path = Inr k" and "tree w k = Some (File d)"
  shows "resolve (w\<lparr>tree := (tree w)(k := None)\<rparr>) path = Inr k"
  using assms(1) by (rule resolve_mono) (use assms(2) in auto)

lemma deleteFile_outcome:
  "fst (deleteFile this uuid u w) =
     (if file_exists (getFilePath this uuid) w then Inr ()
      else Inl (MediaBackendError (could_not_delete (getFilePath this uuid))))"
proof (cases "file_exists (getFilePath this uuid) w")
  case True
  from fs_unlink_file [OF True] show ?thesis
    using True by (auto simp: deleteFile_def Let_def)
next
  case False
  from fs_unlink_no_file [OF False] show ?thesis
    using False by (auto simp: deleteFile_def Let_def)
qed

lemma deleteFile_world:
  assumes "file_exists (getFilePath this uuid) w"
  shows "\<exists>k d. resolve w (getFilePath this uuid) = Inr k \<and> tree w k = Some (File d)
           \<and> snd (deleteFile this uuid u w) = w\<lparr>tree := (tree w)(k := None)\<rparr>"
proof -
  from assms obtain k d where k: "resolve w (getFilePath this uuid) = Inr k"
    and ts: "\<not> trailing_slash (getFilePath this uuid)" and f: "tree w k = Some (File d)"
    by (auto simp: file_exists_iff)
  then have "fs_unlink (getFilePath this uuid) w = Inr (w\<lparr>tree := (tree w)(k := None)\<rparr>)"
    by (auto simp: fs_unlink_Inr)
  then have "snd (deleteFile this uuid u w) = w\<lparr>tree := (tree w)(k := None)\<rparr>"
    by (simp add: deleteFile_def Let_def)
  with k f show ?thesis by blast
qed

lemma ensureDirectory_accessible:
  assumes "fs_access (uploadDirectory this) w = Inr ()"
  shows "ensureDirectory this others w =
           (Inr (), logger_debug (ensuring_presence (uploadDirectory this)) ''ensureDirectory'' w)"
  using assms by (simp add: ensureDirectory_def Let_def)

lemma fs_writeFile_fulfilled_iff:
  "(\<exists>w'. fs_writeFile path data w = Inr w') \<longleftrightarrow>
     (\<exists>k. resolve w path = Inr k \<and> \<not> trailing_slash path \<and> tree w k \<noteq> Some Dir)"
  by (auto simp: fs_writeFile_Inr)

lemma written_is_writable:
  assumes "fs_writeFile path data w = Inr w'" and "tree v = tree w'" and "cwd v = cwd w'"
  shows "\<exists>v'. fs_writeFile path data' v = Inr v'"
proof -
  from assms(1) obtain k where k: "resolve w path = Inr k" and ts: "\<not> trailing_slash path"
    and nd: "tree w k \<noteq> Some Dir" and w': "w' = w\<lparr>tree := (tree w)(k \<mapsto> File data)\<rparr>"
    by (auto simp: fs_writeFile_Inr)
  have "resolve v path = Inr k"
    using k by (rule resolve_mono) (use nd assms(2,3) in \<open>auto simp: w'\<close>)
  moreover have "tree v k \<noteq> Some Dir" by (simp add: assms(2) w')
  ultimately show ?thesis using ts by (auto simp: fs_writeFile_fulfilled_iff)
qed

lemma saveFile_again:
  assumes "saveFile this others uuid c1 w = (Inr (), w1)"
  shows "\<exists>w2. saveFile this others' uuid c2 w1 = (Inr (), w2)
           \<and> fs_readFile (getFilePath this uuid) w2 = Inr c2"
proof -
  let ?p = "getFilePath this uuid"
  let ?v0 = "logger_debug (writing_to ?p) ''saveFile'' w1"
  let ?v1 = "logger_debug (ensuring_presence (uploadDirectory this)) ''ensureDirectory'' ?v0"
  from saveFile_round_trip_aux [OF assms] obtain w0 where
    wr: "fs_writeFile ?p c1 w0 = Inr w1" and acc: "fs_access (uploadDirectory this) w1 = Inr ()"
    by blast
  have e: "ensureDirectory this others' ?v0 = (Inr (), ?v1)"
    by (rule ensureDirectory_accessible) (simp add: acc)
  have "\<exists>v'. fs_writeFile ?p c2 ?v1 = Inr v'"
    using wr by (rule written_is_writable) simp_all
  then obtain w2 where w2: "fs_writeFile ?p c2 ?v1 = Inr w2" by blast
  have s: "saveFile this others' uuid c2 w1 = (Inr (), w2)"
    unfolding saveFile_def Let_def e by (simp add: w2)
  have r: "fs_readFile ?p w2 = Inr c2"
    using w2 by (rule written_then_read)
  show ?thesis
    by (rule exI [of _ w2]) (rule conjI [OF s r])
qed

section \<open>Facts about the object store\<close>

lemma s3_saveFile_Inr:
  "s3_saveFile this uuid data w = (Inr u, w') \<longleftrightarrow>
     (\<exists>c cfg objects. client this = Some c \<and> config this = Some cfg
        \<and> buckets w (bucket cfg) = Some objects
        \<and> w' = logger_log (uploaded_file uuid) ''saveFile''
                 (w\<lparr>buckets := (buckets w)(bucket cfg \<mapsto> objects(uuid \<mapsto> data))\<rparr>))"
  by (auto simp: s3_saveFile_def with_client_def putObject_def split: option.splits)

lemma s3_saveFile_again:
  assumes "s3_saveFile this uuid c1 w = (Inr (), w1)"
  shows "\<exists>w2 cfg. config this = Some cfg \<and> s3_saveFile this uuid c2 w1 = (Inr (), w2)
           \<and> getObject (bucket cfg) uuid w2 = Inr c2"
proof -
  from assms obtain c cfg objects where c: "client this = Some c" and cfg: "config this = Some cfg"
    and b: "buckets w (bucket cfg) = Some objects"
    and w1: "w1 = logger_log (uploaded_file uuid) ''saveFile''
                 (w\<lparr>buckets := (buckets w)(bucket cfg \<mapsto> objects(uuid \<mapsto> c1))\<rparr>)"
    by (auto simp: s3_saveFile_Inr)
  let ?w2 = "logger_log (uploaded_file uuid) ''saveFile''
               (w1\<lparr>buckets := (buckets w1)(bucket cfg \<mapsto> (objects(uuid \<mapsto> c1))(uuid \<mapsto> c2))\<rparr>)"
  have b1: "buckets w1 (bucket cfg) = Some (objects(uuid \<mapsto> c1))"
    by (simp add: w1)
  have s: "s3_saveFile this uuid c2 w1 = (Inr (), ?w2)"
    using c cfg b1 by (auto simp: s3_saveFile_Inr)
  have g: "getObject (bucket cfg) uuid ?w2 = Inr c2"
    by (simp add: getObject_def)
  from cfg s g show ?thesis by blast
qed

lemma s3_saveFile_media_world:
  "fst (s3_saveFile media_backend ''abc'' [1, 2, 3] media_world) = Inr ()"
  by (simp add: s3_saveFile_def with_client_def media_backend_def media_config_def putObject_def
      media_world_def fresh_world_def)

section \<open>Every rejection is caught\<close>

lemma saveFile_rejections:
  "fst (saveFile this others uuid buffer w) = Inl e \<Longrightarrow>
     e = MediaBackendError (could_not_create (uploadDirectory this))
     \<or> e = MediaBackendError (could_not_save (getFilePath this uuid))"
  by (auto simp: saveFile_def ensureDirectory_def Let_def split: sum.splits)

lemma deleteFile_rejections:
  "fst (deleteFile this uuid u w) = Inl e \<Longrightarrow>
     e = MediaBackendError (could_not_delete (getFilePath this uuid))"
  by (auto simp: deleteFile_def Let_def split: sum.splits)

lemma s3_rejections:
  "fst (s3_saveFile that uuid buffer w) = Inl e \<Longrightarrow> e = MediaBackendError (s3_could_not_save uuid)"
  "fst (s3_deleteFile that uuid u w) = Inl e \<Longrightarrow> e = MediaBackendError (s3_could_not_delete uuid)"
  "fst (s3_getFileUrl that uuid u w) = Inl e \<Longrightarrow> e = MediaBackendError (s3_could_not_get_url uuid)"
  by (auto simp: s3_saveFile_def s3_deleteFile_def s3_getFileUrl_def split: sum.splits)

lemma saveFile_mkdir_failure:
  assumes "fs_access (uploadDirectory this) w = Inl e"
    and "fs_mkdir (uploadDirectory this) (at_mkdir this others uuid w) = Inl e'"
  shows "saveFile this others uuid buffer w
           = (Inl (MediaBackendError (could_not_create (uploadDirectory this))),
              logger_error e' ''ensureDirectory'' (at_mkdir this others uuid w))"
  using assms by (simp add: saveFile_def ensureDirectory_def Let_def at_mkdir_def)

lemma saveFile_write_failure:
  assumes "ensureDirectory this others
             (logger_debug (writing_to (getFilePath this uuid)) ''saveFile'' w) = (Inr (), w1)"
    and "fs_writeFile (getFilePath this uuid) buffer w1 = Inl e"
  shows "saveFile this others uuid buffer w
           = (Inl (MediaBackendError (could_not_save (getFilePath this uuid))),
              logger_error e ''saveFile'' w1)"
  using assms by (simp add: saveFile_def Let_def)

lemma deleteFile_failure:
  assumes "fs_unlink (getFilePath this uuid) w = Inl e"
  shows "deleteFile this uuid u w
           = (Inl (MediaBackendError (could_not_delete (getFilePath this uuid))),
              logger_error e ''deleteFile'' w)"
  using assms by (simp add: deleteFile_def Let_def)

lemma s3_saveFile_failure:
  assumes "client that = Some c" and "config that = Some cfg"
    and "putObject c (bucket cfg) uuid buffer w = Inl e"
  shows "s3_saveFile that uuid buffer w
           = (Inl (MediaBackendError (s3_could_not_save uuid)), logger_error e ''saveFile'' w)"
  using assms by (simp add: s3_saveFile_def with_client_def)

lemma s3_deleteFile_failure:
  assumes "client that = Some c" and "config that = Some cfg"
    and "removeObject c (bucket cfg) uuid w = Inl e"
  shows "s3_deleteFile that uuid u w
           = (Inl (MediaBackendError (s3_could_not_delete uuid)), logger_error e ''deleteFile'' w)"
  using assms by (simp add: s3_deleteFile_def with_client_def)

lemma s3_getFileUrl_failure:
  assumes "client that = Some c" and "config that = Some cfg"
    and "presignedGetObject c (bucket cfg) uuid w = Inl e"
  shows "s3_getFileUrl that uuid u w
           = (Inl (MediaBackendError (s3_could_not_get_url uuid)), logger_error e ''getFileUrl'' w)"
  using assms by (simp add: s3_getFileUrl_def with_client_def)

lemma deleteFile_fresh_world:
  "isl (fst (deleteFile uploads_backend ''abc'' () fresh_world))"
  by (simp add: deleteFile_def getFilePath_uploads_abc fs_unlink_def resolve_def fresh_world_def
      strip_trailing_def)

lemma s3_getFileUrl_no_signature:
  "isl (fst (s3_getFileUrl media_backend ''abc'' ()
              (media_world\<lparr>signer := (\<lambda>b k. Inl (S3Error ''AccessDenied''))\<rparr>)))"
  by (simp add: s3_getFileUrl_def with_client_def media_backend_def presignedGetObject_def)

section \<open>Facts about \<^verbatim>\<open>parseInt\<close>\<close>

declare decimal.simps [simp del]

declare binary_digits.simps [simp del]

lemma below_ten: "d < 10 \<Longrightarrow> d \<in> {0, 1, 2, 3, 4, 5, 6, 7, 8, 9 :: nat}"
  by auto

lemma digit_char_facts:
  assumes "d < 10"
  shows "digit_of (digit_char d) = Some d" and "\<not> is_space (digit_char d)"
    and "digit_char d \<noteq> 0x2B" and "digit_char d \<noteq> 0x2D"
    and "digit_char d \<noteq> 0x78" and "digit_char d \<noteq> 0x58"
  using below_ten [OF assms]
  by (auto simp: digit_char_def digit_of_def is_space_def)

lemma digit_char_plain: "d < 10 \<Longrightarrow> plain_digit (digit_char d)"
  using below_ten [of d] by (auto simp: digit_char_def plain_digit_def)

lemma decimal_plain: "c \<in> set (decimal n) \<Longrightarrow> plain_digit c"
proof (induction n arbitrary: c rule: decimal.induct)
  case (1 n)
  show ?case
  proof (cases "n < 10")
    case True
    with "1.prems" show ?thesis
      by (auto simp: decimal.simps [of n] digit_char_plain)
  next
    case False
    with "1.prems" have "c \<in> set (decimal (n div 10)) \<or> c = digit_char (n mod 10)"
      by (auto simp: decimal.simps [of n])
    then show ?thesis
    proof
      assume "c \<in> set (decimal (n div 10))"
      with False show ?thesis by (intro "1.IH")
    next
      assume "c = digit_char (n mod 10)"
      then show ?thesis by (simp add: digit_char_plain)
    qed
  qed
qed

lemma decimal_not_empty: "decimal n \<noteq> []"
  by (simp add: decimal.simps [of n])

lemma digits_value_snoc:
  "digits_value R (Z @ [c]) = digits_value R Z * R + (case digit_of c of None \<Rightarrow> 0 | Some d \<Rightarrow> d)"
  by (simp add: digits_value_def)

lemma digits_value_decimal: "digits_value 10 (decimal n) = n"
proof (induction n rule: decimal.induct)
  case (1 n)
  show ?case
  proof (cases "n < 10")
    case True
    then show ?thesis
      by (simp add: decimal.simps [of n] digits_value_def digit_char_facts)
  next
    case False
    then have "digits_value 10 (decimal (n div 10)) = n div 10" by (rule "1.IH")
    with False show ?thesis
      by (simp add: decimal.simps [of n] digits_value_snoc digit_char_facts)
  qed
qed

lemma plain_digit_facts:
  assumes "plain_digit c"
  shows "is_digit_in 10 c" and "\<not> is_space c" and "c \<noteq> 0x2B" and "c \<noteq> 0x2D"
    and "c \<noteq> 0x78" and "c \<noteq> 0x58"
  using assms by (auto simp: plain_digit_def is_digit_in_def digit_of_def is_space_def)

lemma parseInt_plain:
  assumes "\<And>c. c \<in> set ds \<Longrightarrow> plain_digit c" and "ds \<noteq> []"
    and "digits_value 10 ds < 2 ^ 53"
  shows "parseInt ds = Number (int (digits_value 10 ds))"
proof -
  from assms(2) have h: "hd ds \<in> set ds" by simp
  then have ph: "plain_digit (hd ds)" by (rule assms(1))
  have S: "dropWhile is_space ds = ds"
    using ph assms(2) by (simp add: plain_digit_facts dropWhile_eq_self_iff)
  have nx: "take 2 ds \<noteq> [0x30, 0x78] \<and> take 2 ds \<noteq> [0x30, 0x58]"
  proof (rule ccontr)
    assume "\<not> ?thesis"
    then have "0x78 \<in> set (take 2 ds) \<or> 0x58 \<in> set (take 2 ds)" by auto
    then have "0x78 \<in> set ds \<or> 0x58 \<in> set ds" by (auto dest: in_set_takeD)
    then show False using assms(1) plain_digit_facts(5,6) by blast
  qed
  have Z: "takeWhile (is_digit_in 10) ds = ds"
    using assms(1) by (simp add: plain_digit_facts takeWhile_eq_all_conv)
  have sg: "hd ds \<noteq> 0x2B \<and> hd ds \<noteq> 0x2D"
    using ph by (simp add: plain_digit_facts)
  have nd: "nearest_double (digits_value 10 ds) = Some (digits_value 10 ds)"
    using assms(3) by (simp add: nearest_double_def)
  show ?thesis
    unfolding parseInt_def Let_def S using nx sg assms(2) by (simp add: Z nd)
qed

lemma parseInt_decimal: "n < 2 ^ 53 \<Longrightarrow> parseInt (decimal n) = Number (int n)"
  using parseInt_plain [of "decimal n"] decimal_plain decimal_not_empty
  by (simp add: digits_value_decimal)

lemma parseInt_empty: "parseInt [] = NaN"
  by (simp add: parseInt_def)

lemma nearest_double_examples:
  "nearest_double 9000 = Some 9000"
  "nearest_double (2 ^ 53 + 1) = Some (2 ^ 53)"
  "nearest_double (2 ^ 53 + 3) = Some (2 ^ 53 + 4)"
  by (simp_all add: nearest_double_def binary_digits.simps Let_def)

section \<open>The run in which another actor creates the directory first\<close>

lemma resolve_same_tree:
  "tree v = tree w \<Longrightarrow> cwd v = cwd w \<Longrightarrow> resolve v path = resolve w path"
  by (simp add: resolve_def)

lemma race_access: "fs_access ''uploads'' fresh_world = Inl (SystemError ENOENT)"
  by (simp add: fs_access_def resolve_def fresh_world_def strip_trailing_def)

lemma race_mkdir:
  "fs_mkdir ''uploads'' (at_mkdir uploads_backend creating_uploads ''abc'' fresh_world)
     = Inl (SystemError EEXIST)"
  by (simp add: at_mkdir_def creating_uploads_def fs_mkdir_def resolve_def fresh_world_def
      strip_trailing_def logger_debug_def)

lemma race_saveFile:
  "fst (saveFile uploads_backend creating_uploads ''abc'' [1, 2, 3] fresh_world)
     = Inl (MediaBackendError (could_not_create ''uploads''))"
  "fs_readFile ''uploads/abc''
     (snd (saveFile uploads_backend creating_uploads ''abc'' [1, 2, 3] fresh_world))
     = Inl (SystemError ENOENT)"
  by (simp_all add: saveFile_def ensureDirectory_def getFilePath_uploads_abc uploadDirectory_uploads
      fresh_world_def creating_uploads_def fs_access_def fs_mkdir_def fs_readFile_def
      resolve_def strip_trailing_def trailing_slash_def logger_debug_def logger_error_def Let_def)

lemma existing_uploads_access: "fs_access ''uploads'' (creating_uploads fresh_world) = Inr ()"
  by (simp add: fs_access_def resolve_def fresh_world_def creating_uploads_def strip_trailing_def)

lemma existing_uploads_writable:
  assumes "tree v = tree (creating_uploads fresh_world)" and "cwd v = cwd (creating_uploads fresh_world)"
  shows "\<exists>v'. fs_writeFile ''uploads/abc'' data v = Inr v'"
proof -
  have "resolve v ''uploads/abc'' = resolve (creating_uploads fresh_world) ''uploads/abc''"
    using assms by (rule resolve_same_tree)
  also have "\<dots> = Inr [''uploads'', ''abc'']"
    by (simp add: resolve_def fresh_world_def creating_uploads_def strip_trailing_def)
  finally have "resolve v ''uploads/abc'' = Inr [''uploads'', ''abc'']" .
  moreover have "tree v [''uploads'', ''abc''] \<noteq> Some Dir"
    by (simp add: assms(1) fresh_world_def creating_uploads_def)
  moreover have "\<not> trailing_slash ''uploads/abc''"
    by (simp add: trailing_slash_def)
  ultimately show ?thesis
    unfolding fs_writeFile_fulfilled_iff by blast
qed

section \<open>Facts about splitting and joining paths\<close>

lemma split_slash_not_Nil [simp]: "split_slash p \<noteq> []"
  by (induction p) (auto split: list.splits)

lemma split_slash_append:
  "split_slash (xs @ CHR ''/'' # ys) = split_slash xs @ split_slash ys"
  by (induction xs) (auto split: list.splits)

lemma split_slash_plain: "CHR ''/'' \<notin> set a \<Longrightarrow> split_slash a = [a]"
  by (induction a) auto

lemma split_slash_free: "s \<in> set (split_slash p) \<Longrightarrow> CHR ''/'' \<notin> set s"
  by (induction p arbitrary: s) (auto split: list.splits if_splits)

lemma join_slash_snoc:
  "join_slash (xs @ [a]) = (if xs = [] then a else join_slash xs @ CHR ''/'' # a)"
  by (induction xs rule: join_slash.induct) auto

lemma split_join_slash:
  "xs \<noteq> [] \<Longrightarrow> (\<And>x. x \<in> set xs \<Longrightarrow> CHR ''/'' \<notin> set x) \<Longrightarrow> split_slash (join_slash xs) = xs"
proof (induction xs rule: rev_induct)
  case Nil
  then show ?case by simp
next
  case (snoc a ys)
  show ?case
  proof (cases "ys = []")
    case True
    with snoc.prems show ?thesis by (simp add: split_slash_plain)
  next
    case False
    then have "split_slash (join_slash ys) = ys"
      by (rule snoc.IH) (simp add: snoc.prems(2))
    with False snoc.prems(2) show ?thesis
      by (simp add: join_slash_snoc split_slash_append split_slash_plain)
  qed
qed

lemma normalize_step_kept:
  assumes "\<And>s. s \<in> set res \<Longrightarrow> kept_segment s" and "CHR ''/'' \<notin> set seg"
    and "s \<in> set (normalize_step allow res seg)"
  shows "kept_segment s"
  using assms by (auto simp: normalize_step_def kept_segment_def split: if_splits dest: in_set_butlastD)

lemma foldl_normalize_step_kept:
  assumes "\<And>s. s \<in> set segs \<Longrightarrow> CHR ''/'' \<notin> set s" and "\<And>s. s \<in> set res \<Longrightarrow> kept_segment s"
    and "s \<in> set (foldl (normalize_step allow) res segs)"
  shows "kept_segment s"
  using assms
proof (induction segs arbitrary: res)
  case Nil
  then show ?case by simp
next
  case (Cons seg segs)
  show ?case
  proof (rule Cons.IH)
    show "CHR ''/'' \<notin> set x" if "x \<in> set segs" for x
      using that Cons.prems(1) by simp
    show "kept_segment x" if "x \<in> set (normalize_step allow res seg)" for x
    proof (rule normalize_step_kept [OF _ _ that])
      show "kept_segment y" if "y \<in> set res" for y using that by (rule Cons.prems(2))
      show "CHR ''/'' \<notin> set seg" by (rule Cons.prems(1)) simp
    qed
    show "s \<in> set (foldl (normalize_step allow) (normalize_step allow res seg) segs)"
      using Cons.prems(3) by simp
  qed
qed

lemma canonical_segments_kept: "s \<in> set (canonical_segments path) \<Longrightarrow> kept_segment s"
  unfolding canonical_segments_def normalize_segments_def
  by (rule foldl_normalize_step_kept [where res = "[]"]) (auto dest: split_slash_free)

lemma foldl_normalize_step_no_dotdot:
  "''..'' \<notin> set res \<Longrightarrow> ''..'' \<notin> set (foldl (normalize_step False) res segs)"
proof (induction segs arbitrary: res)
  case Nil
  then show ?case by simp
next
  case (Cons seg segs)
  have "''..'' \<notin> set (normalize_step False res seg)"
    using Cons.prems by (auto simp: normalize_step_def dest: in_set_butlastD)
  then show ?case by (simp add: Cons.IH)
qed

lemma canonical_segments_absolute:
  "is_absolute path \<Longrightarrow> ''..'' \<notin> set (canonical_segments path)"
  by (simp add: canonical_segments_def normalize_segments_def foldl_normalize_step_no_dotdot)

lemma normalize_step_plain: "plain_name a \<Longrightarrow> normalize_step allow res a = res @ [a]"
  by (simp add: normalize_step_def plain_name_def)

lemma path_join_joined:
  "path_join a b = (if joined a b = [] then ''.'' else normalize_path (joined a b))"
  by (simp add: path_join_def joined_def Let_def)

lemma normalize_segments_split_joined:
  "normalize_segments allow (split_slash (joined dir uuid))
     = foldl (normalize_step allow) (normalize_segments allow (split_slash dir)) (split_slash uuid)"
proof (cases "dir = []")
  case True
  then show ?thesis
    by (simp add: joined_def normalize_segments_def normalize_step_def)
next
  case False
  show ?thesis
  proof (cases "uuid = []")
    case True
    with False show ?thesis
      by (simp add: joined_def normalize_segments_def normalize_step_def)
  next
    case uuid: False
    with False show ?thesis
      by (simp add: joined_def normalize_segments_def split_slash_append)
  qed
qed

lemma join_slash_not_Nil:
  "S \<noteq> [] \<Longrightarrow> (\<And>s. s \<in> set S \<Longrightarrow> s \<noteq> []) \<Longrightarrow> join_slash S \<noteq> []"
  by (induction S rule: join_slash.induct) auto

lemma hd_join_slash: "S \<noteq> [] \<Longrightarrow> hd S \<noteq> [] \<Longrightarrow> hd (join_slash S) = hd (hd S)"
  by (induction S rule: join_slash.induct) auto

lemma join_slash_last_not_Nil: "S \<noteq> [] \<Longrightarrow> last S \<noteq> [] \<Longrightarrow> join_slash S \<noteq> []"
  by (induction S rule: join_slash.induct) auto

lemma last_join_slash:
  "S \<noteq> [] \<Longrightarrow> last S \<noteq> [] \<Longrightarrow> last (join_slash S) = last (last S)"
proof (induction S rule: join_slash.induct)
  case (3 s t ts)
  then have "join_slash (t # ts) \<noteq> []"
    using join_slash_last_not_Nil [of "t # ts"] by simp
  with 3 show ?case by simp
qed simp_all

lemma joined_segments_kept: "s \<in> set (joined_segments dir uuid) \<Longrightarrow> kept_segment s"
  unfolding joined_segments_def
  by (rule foldl_normalize_step_kept [where res = "canonical_segments dir"])
     (auto dest: split_slash_free canonical_segments_kept)

lemma path_join_segments:
  assumes "uuid \<noteq> []" and "hd uuid \<noteq> CHR ''/''" and "last uuid \<noteq> CHR ''/''"
    and "joined_segments dir uuid \<noteq> []"
  shows "path_join dir uuid
           = (if is_absolute dir then ''/'' else []) @ join_slash (joined_segments dir uuid)"
proof -
  let ?j = "joined dir uuid"
  have ne: "?j \<noteq> []" using assms(1) by (simp add: joined_def)
  have ab: "(hd ?j = CHR ''/'') = is_absolute dir"
    using assms(1,2) by (auto simp: joined_def is_absolute_def)
  have tr: "last ?j \<noteq> CHR ''/''"
    using assms(1,3) by (simp add: joined_def)
  have "is_absolute ?j = is_absolute dir"
    using ab ne by (simp add: is_absolute_def)
  have seg: "normalize_segments (\<not> is_absolute dir) (split_slash ?j) = joined_segments dir uuid"
    by (simp add: normalize_segments_split_joined joined_segments_def canonical_segments_def)
  have "join_slash (joined_segments dir uuid) \<noteq> []"
    using assms(4) by (rule join_slash_not_Nil) (use joined_segments_kept in \<open>auto simp: kept_segment_def\<close>)
  then show ?thesis
    using ne ab tr seg
    by (simp add: path_join_joined normalize_path_def normalizeString_def Let_def)
qed

lemma joined_segments_plain:
  "plain_name a \<Longrightarrow> joined_segments dir a = canonical_segments dir @ [a]"
  by (simp add: joined_segments_def split_slash_plain plain_name_def normalize_step_plain)

lemma joined_segments_two:
  "plain_name a \<Longrightarrow> plain_name b \<Longrightarrow>
     joined_segments dir (a @ CHR ''/'' # b) = canonical_segments dir @ [a, b]"
  by (simp add: joined_segments_def split_slash_append split_slash_plain plain_name_def
      normalize_step_plain)

lemma joined_segments_dot:
  "plain_name a \<Longrightarrow> joined_segments dir (''./'' @ a) = canonical_segments dir @ [a]"
  using split_slash_append [of "''.''" a]
  by (simp add: joined_segments_def split_slash_plain plain_name_def normalize_step_plain)
     (simp add: normalize_step_def)

lemma joined_segments_dotdot:
  "plain_name a \<Longrightarrow>
     joined_segments dir (''../'' @ a)
       = normalize_step (\<not> is_absolute dir) (canonical_segments dir) ''..'' @ [a]"
  using split_slash_append [of "''..''" a]
  by (simp add: joined_segments_def split_slash_plain plain_name_def normalize_step_plain)

lemma plain_name_ends: "plain_name a \<Longrightarrow> a \<noteq> [] \<and> hd a \<noteq> CHR ''/'' \<and> last a \<noteq> CHR ''/''"
proof -
  assume p: "plain_name a"
  then have ne: "a \<noteq> []" and nf: "CHR ''/'' \<notin> set a" by (simp_all add: plain_name_def)
  from ne have "hd a \<in> set a" and "last a \<in> set a" by simp_all
  with nf have "hd a \<noteq> CHR ''/''" and "last a \<noteq> CHR ''/''" by metis+
  with ne show ?thesis by simp
qed

lemma path_join_plain:
  assumes "plain_name a"
  shows "path_join dir a
           = (if is_absolute dir then ''/'' else []) @ join_slash (canonical_segments dir @ [a])"
  using path_join_segments [of a dir] plain_name_ends [OF assms]
  by (simp add: joined_segments_plain [OF assms])


section \<open>Resolving normalised paths\<close>

lemma walk_append:
  "walk t cur (xs @ ys) = (case walk t cur xs of Inl e \<Rightarrow> Inl e | Inr k \<Rightarrow> walk t k ys)"
  by (induction xs arbitrary: cur) (auto split: option.splits node.splits)

lemma walk_empty_segment: "S \<noteq> [] \<Longrightarrow> walk t cur ([] # S) = walk t cur S"
  by (cases S) (auto split: option.splits node.splits)

lemma strip_trailing_id: "xs \<noteq> [] \<Longrightarrow> last xs \<noteq> [] \<Longrightarrow> strip_trailing xs = xs"
  by (cases xs rule: rev_cases) (simp_all add: strip_trailing_def)

lemma resolve_segments:
  assumes "S \<noteq> []" and "\<And>s. s \<in> set S \<Longrightarrow> kept_segment s"
  shows "resolve w ((if A then ''/'' else []) @ join_slash S)
           = walk (tree w) (if A then [] else cwd w) S"
    and "\<not> trailing_slash ((if A then ''/'' else []) @ join_slash S)"
proof -
  have k: "kept_segment (hd S)" "kept_segment (last S)"
    using assms by simp_all
  then have h: "hd S \<noteq> []" and l: "last S \<noteq> []"
    by (simp_all add: kept_segment_def)
  have j: "join_slash S \<noteq> []"
    using assms(1) l by (rule join_slash_last_not_Nil)
  have "hd (hd S) \<in> set (hd S)" using h by simp
  with k(1) have "hd (hd S) \<noteq> CHR ''/''" unfolding kept_segment_def by metis
  then have hj: "hd (join_slash S) \<noteq> CHR ''/''"
    using assms(1) h by (simp add: hd_join_slash)
  have "last (last S) \<in> set (last S)" using l by simp
  with k(2) have "last (last S) \<noteq> CHR ''/''" unfolding kept_segment_def by metis
  then have lj: "last (join_slash S) \<noteq> CHR ''/''"
    using assms(1) l by (simp add: last_join_slash)
  have sp: "split_slash (join_slash S) = S"
    using assms(1) by (rule split_join_slash) (use assms(2) in \<open>auto simp: kept_segment_def\<close>)
  have st: "strip_trailing S = S" "strip_trailing ([] # S) = [] # S"
    using assms(1) l by (simp_all add: strip_trailing_id)
  show "resolve w ((if A then ''/'' else []) @ join_slash S)
           = walk (tree w) (if A then [] else cwd w) S"
    using j hj sp st assms(1) by (simp add: resolve_def walk_empty_segment del: walk.simps)
  show "\<not> trailing_slash ((if A then ''/'' else []) @ join_slash S)"
    using j lj by (simp add: trailing_slash_def)
qed

text \<open>
  Where the kernel resolves a directory path to, the normalised path resolves to as
  well: normalisation only leaves out detours.
\<close>

lemma walk_snoc_name:
  assumes "walk t s0 (st @ [x]) = Inr cur" and "x \<noteq> []" and "x \<noteq> ''.''" and "x \<noteq> ''..''"
  shows "\<exists>c. walk t s0 st = Inr c \<and> t c = Some Dir \<and> cur = c @ [x]"
  using assms by (auto simp: walk_append split: sum.splits option.splits node.splits)

lemma walk_normalize_step:
  assumes "walk t s0 st = Inr cur" and "t cur = Some Dir"
    and "\<And>s. s \<in> set st \<Longrightarrow> s \<noteq> [] \<and> s \<noteq> ''.''"
    and "allow \<or> (s0 = [] \<and> ''..'' \<notin> set st)"
  shows "walk t s0 (normalize_step allow st seg)
           = Inr (if seg = [] \<or> seg = ''.'' then cur else if seg = ''..'' then butlast cur else cur @ [seg])"
proof (cases "seg = [] \<or> seg = ''.''")
  case True
  then show ?thesis using assms(1) by (auto simp: normalize_step_def)
next
  case False
  show ?thesis
  proof (cases "seg = ''..''")
    case name: False
    with False assms(1,2) show ?thesis
      by (simp add: normalize_step_def walk_append)
  next
    case True
    show ?thesis
    proof (cases "st \<noteq> [] \<and> last st \<noteq> ''..''")
      case pop: True
      then have "st = butlast st @ [last st]" by simp
      with assms(1) have w: "walk t s0 (butlast st @ [last st]) = Inr cur" by simp
      have "last st \<in> set st" using pop by simp
      then have "last st \<noteq> [] \<and> last st \<noteq> ''.''" by (rule assms(3))
      with w pop obtain c where "walk t s0 (butlast st) = Inr c" and "cur = c @ [last st]"
        using walk_snoc_name [of t s0 "butlast st" "last st" cur] by blast
      with True pop show ?thesis by (simp add: normalize_step_def)
    next
      case push: False
      show ?thesis
      proof (cases allow)
        case True
        with \<open>seg = ''..''\<close> push assms(1,2) show ?thesis
          by (auto simp: normalize_step_def walk_append)
      next
        case no: False
        with assms(4) have "s0 = []" and nd: "''..'' \<notin> set st" by simp_all
        have "st = []"
        proof (rule ccontr)
          assume "st \<noteq> []"
          with push have "last st = ''..''" by simp
          moreover have "last st \<in> set st" using \<open>st \<noteq> []\<close> by simp
          ultimately show False using nd by simp
        qed
        with assms(1) \<open>s0 = []\<close> have "cur = []" by simp
        with \<open>seg = ''..''\<close> \<open>st = []\<close> \<open>s0 = []\<close> no show ?thesis
          by (simp add: normalize_step_def)
      qed
    qed
  qed
qed

lemma normalize_step_invariants:
  assumes "\<And>s. s \<in> set st \<Longrightarrow> s \<noteq> [] \<and> s \<noteq> ''.''"
  shows "s \<in> set (normalize_step allow st seg) \<Longrightarrow> s \<noteq> [] \<and> s \<noteq> ''.''"
    and "''..'' \<notin> set st \<Longrightarrow> ''..'' \<notin> set (normalize_step False st seg)"
  using assms by (auto simp: normalize_step_def split: if_splits dest: in_set_butlastD)

lemma walk_normalized:
  assumes "walk t cur raw = Inr k" and "walk t s0 st = Inr cur"
    and "\<And>s. s \<in> set st \<Longrightarrow> s \<noteq> [] \<and> s \<noteq> ''.''"
    and "allow \<or> (s0 = [] \<and> ''..'' \<notin> set st)"
  shows "walk t s0 (foldl (normalize_step allow) st raw) = Inr k"
  using assms
proof (induction raw arbitrary: st cur)
  case Nil
  then show ?case by simp
next
  case (Cons seg raw)
  let ?next = "if seg = [] \<or> seg = ''.'' then cur else if seg = ''..'' then butlast cur else cur @ [seg]"
  from Cons.prems(1) have d: "t cur = Some Dir"
    by (auto split: option.splits node.splits)
  with Cons.prems(1) have rest: "walk t ?next raw = Inr k" by simp
  have st': "walk t s0 (normalize_step allow st seg) = Inr ?next"
    using Cons.prems(2) d Cons.prems(3,4) by (rule walk_normalize_step)
  have inv: "s \<noteq> [] \<and> s \<noteq> ''.''" if "s \<in> set (normalize_step allow st seg)" for s
    using Cons.prems(3) that by (rule normalize_step_invariants(1))
  have al: "allow \<or> (s0 = [] \<and> ''..'' \<notin> set (normalize_step allow st seg))"
  proof (cases allow)
    case True
    then show ?thesis by simp
  next
    case False
    with Cons.prems(4) have "s0 = []" and "''..'' \<notin> set st" by simp_all
    with False Cons.prems(3) show ?thesis
      using normalize_step_invariants(2) [of st seg] by simp
  qed
  have "walk t s0 (foldl (normalize_step allow) (normalize_step allow st seg) raw) = Inr k"
    using rest st' inv al by (rule Cons.IH)
  then show ?case by simp
qed

lemma foldl_normalize_step_strip:
  "foldl (normalize_step allow) st (strip_trailing xs) = foldl (normalize_step allow) st xs"
proof (induction xs rule: rev_induct)
  case Nil
  then show ?case by (simp add: strip_trailing_def)
next
  case (snoc x xs)
  show ?case
  proof (cases "x = []")
    case True
    then have "strip_trailing (xs @ [x]) = strip_trailing xs"
      by (simp add: strip_trailing_def)
    with True snoc show ?thesis by (simp add: normalize_step_def)
  next
    case False
    then show ?thesis by (simp add: strip_trailing_def)
  qed
qed

lemma resolve_canonical:
  assumes "resolve w dir = Inr k"
  shows "walk (tree w) (if is_absolute dir then [] else cwd w) (canonical_segments dir) = Inr k"
proof -
  let ?s0 = "if is_absolute dir then [] else cwd w"
  from assms have ne: "dir \<noteq> []" by (auto simp: resolve_def)
  with assms have raw: "walk (tree w) ?s0 (strip_trailing (split_slash dir)) = Inr k"
    by (simp add: resolve_def is_absolute_def)
  have "walk (tree w) ?s0
          (foldl (normalize_step (\<not> is_absolute dir)) [] (strip_trailing (split_slash dir))) = Inr k"
    using raw by (rule walk_normalized) auto
  then show ?thesis
    by (simp add: canonical_segments_def normalize_segments_def foldl_normalize_step_strip)
qed


section \<open>Files of other names stay as they are\<close>

lemma resolve_plain:
  assumes "plain_name a"
  shows "resolve w (getFilePath this a)
           = (case walk (tree w) (if is_absolute (uploadDirectory this) then [] else cwd w)
                     (canonical_segments (uploadDirectory this)) of
                Inl e \<Rightarrow> Inl e
              | Inr kn \<Rightarrow>
                  (case tree w kn of
                     None \<Rightarrow> Inl ENOENT
                   | Some (File d) \<Rightarrow> Inl ENOTDIR
                   | Some Dir \<Rightarrow> Inr (kn @ [a])))"
    and "\<not> trailing_slash (getFilePath this a)"
proof -
  let ?D = "uploadDirectory this"
  let ?S = "canonical_segments ?D @ [a]"
  have ka: "kept_segment a" using assms by (simp add: plain_name_def kept_segment_def)
  have kept: "kept_segment s" if "s \<in> set ?S" for s
    using that ka canonical_segments_kept by auto
  have p: "getFilePath this a = (if is_absolute ?D then ''/'' else []) @ join_slash ?S"
    unfolding getFilePath_def using assms by (rule path_join_plain)
  have r: "resolve w (getFilePath this a)
             = walk (tree w) (if is_absolute ?D then [] else cwd w) ?S"
    unfolding p by (rule resolve_segments(1)) (simp_all add: kept)
  show "\<not> trailing_slash (getFilePath this a)"
    unfolding p by (rule resolve_segments(2)) (simp_all add: kept)
  from assms have "a \<noteq> [] \<and> a \<noteq> ''.'' \<and> a \<noteq> ''..''" by (simp add: plain_name_def)
  then show "resolve w (getFilePath this a)
           = (case walk (tree w) (if is_absolute ?D then [] else cwd w) (canonical_segments ?D) of
                Inl e \<Rightarrow> Inl e
              | Inr kn \<Rightarrow>
                  (case tree w kn of
                     None \<Rightarrow> Inl ENOENT
                   | Some (File d) \<Rightarrow> Inl ENOTDIR
                   | Some Dir \<Rightarrow> Inr (kn @ [a])))"
    unfolding r walk_append by (simp split: sum.splits option.splits node.splits)
qed

lemma resolve_plain_Inr:
  assumes "plain_name a" and "resolve w (getFilePath this a) = Inr k"
  shows "\<exists>kn. walk (tree w) (if is_absolute (uploadDirectory this) then [] else cwd w)
                (canonical_segments (uploadDirectory this)) = Inr kn
              \<and> tree w kn = Some Dir \<and> k = kn @ [a]"
  using assms(2) unfolding resolve_plain(1) [OF assms(1)]
  by (auto split: sum.splits option.splits node.splits)

lemma resolve_plain_in_directory:
  assumes "plain_name b"
    and "walk (tree w) (if is_absolute (uploadDirectory this) then [] else cwd w)
           (canonical_segments (uploadDirectory this)) = Inr kn"
    and "tree w kn = Some Dir"
  shows "resolve w (getFilePath this b) = Inr (kn @ [b])"
  unfolding resolve_plain(1) [OF assms(1)] using assms(2,3) by simp

lemma ensureDirectory_made_directory:
  assumes "ensureDirectory this others w = (Inr u, w')"
    and "fs_access (uploadDirectory this) w = Inl e"
  shows "is_directory (uploadDirectory this) w'"
proof -
  from assms obtain w2 where mk: "fs_mkdir (uploadDirectory this) w2 = Inr w'"
    by (auto simp: ensureDirectory_def Let_def split: sum.splits)
  then obtain k where k: "resolve w2 (uploadDirectory this) = Inr k"
    and w': "w' = w2\<lparr>tree := (tree w2)(k \<mapsto> Dir)\<rparr>" and fresh: "tree w2 k = None"
    by (auto simp: fs_mkdir_Inr)
  have "resolve w' (uploadDirectory this) = Inr k"
    using k by (rule resolve_mono) (auto simp: w' fresh)
  moreover have "tree w' k = Some Dir" by (simp add: w')
  ultimately show ?thesis by (simp add: is_directory_def)
qed

lemma written_keeps_directory:
  assumes "fs_writeFile path data w = Inr w'" and "is_directory dir w"
  shows "is_directory dir w'"
proof -
  from assms(1) obtain k where nd: "tree w k \<noteq> Some Dir"
    and w': "w' = w\<lparr>tree := (tree w)(k \<mapsto> File data)\<rparr>"
    by (auto simp: fs_writeFile_Inr)
  from assms(2) obtain kd where kd: "resolve w dir = Inr kd" and n: "tree w kd = Some Dir"
    by (auto simp: is_directory_def split: sum.splits)
  have "resolve w' dir = Inr kd"
    using kd by (rule resolve_mono) (use nd in \<open>auto simp: w'\<close>)
  moreover have "tree w' kd = Some Dir"
    using n nd by (auto simp: w')
  ultimately show ?thesis by (simp add: is_directory_def)
qed

lemma written_plain_directory:
  assumes "fs_writeFile (getFilePath this a) data w = Inr w'" and "plain_name a"
    and "fs_access (uploadDirectory this) w = Inr ()"
  shows "is_directory (uploadDirectory this) w'"
proof -
  let ?s0 = "if is_absolute (uploadDirectory this) then [] else cwd w"
  let ?N = "canonical_segments (uploadDirectory this)"
  from assms(1) obtain ka where ka: "resolve w (getFilePath this a) = Inr ka"
    and nd: "tree w ka \<noteq> Some Dir" and w': "w' = w\<lparr>tree := (tree w)(ka \<mapsto> File data)\<rparr>"
    by (auto simp: fs_writeFile_Inr)
  from resolve_plain_Inr [OF assms(2) ka] obtain kn where kn: "walk (tree w) ?s0 ?N = Inr kn"
    and d: "tree w kn = Some Dir" and eq: "ka = kn @ [a]"
    by blast
  from assms(3) obtain kd where kd: "resolve w (uploadDirectory this) = Inr kd"
    by (auto simp: fs_access_Inr)
  from resolve_canonical [OF kd] kn have "kd = kn" by simp
  have "resolve w' (uploadDirectory this) = Inr kd"
    using kd by (rule resolve_mono) (use nd in \<open>auto simp: w'\<close>)
  moreover have "tree w' kd = Some Dir"
    using d by (simp add: w' eq \<open>kd = kn\<close>)
  ultimately show ?thesis by (simp add: is_directory_def)
qed

lemma fs_readFile_at:
  assumes "resolve w path = Inr k" and "resolve w' path = Inr k" and "tree w' k = tree w k"
  shows "fs_readFile path w' = fs_readFile path w"
  using assms by (simp add: fs_readFile_def)

lemma written_frame:
  assumes "fs_writeFile (getFilePath this a) data w = Inr w'"
    and "plain_name a" and "plain_name b" and "a \<noteq> b"
  shows "fs_readFile (getFilePath this b) w' = fs_readFile (getFilePath this b) w"
proof -
  let ?s0 = "if is_absolute (uploadDirectory this) then [] else cwd w"
  let ?N = "canonical_segments (uploadDirectory this)"
  from assms(1) obtain ka where ka: "resolve w (getFilePath this a) = Inr ka"
    and nd: "tree w ka \<noteq> Some Dir" and w': "w' = w\<lparr>tree := (tree w)(ka \<mapsto> File data)\<rparr>"
    by (auto simp: fs_writeFile_Inr)
  from resolve_plain_Inr [OF assms(2) ka] obtain kn where kn: "walk (tree w) ?s0 ?N = Inr kn"
    and d: "tree w kn = Some Dir" and eq: "ka = kn @ [a]"
    by blast
  have kn': "walk (tree w') ?s0 ?N = Inr kn"
    using kn by (rule walk_mono) (use nd in \<open>auto simp: w'\<close>)
  have d': "tree w' kn = Some Dir" using d by (simp add: w' eq)
  have c: "cwd w' = cwd w" by (simp add: w')
  have r: "resolve w (getFilePath this b) = Inr (kn @ [b])"
    using assms(3) kn d by (rule resolve_plain_in_directory)
  have r': "resolve w' (getFilePath this b) = Inr (kn @ [b])"
    using assms(3) kn' [folded c] d' by (rule resolve_plain_in_directory)
  show ?thesis
    using r r' by (rule fs_readFile_at) (use assms(4) in \<open>simp add: w' eq\<close>)
qed

lemma unlinked_frame:
  assumes "fs_unlink (getFilePath this a) w = Inr w'"
    and "plain_name a" and "plain_name b" and "a \<noteq> b"
  shows "fs_readFile (getFilePath this b) w' = fs_readFile (getFilePath this b) w"
proof -
  let ?s0 = "if is_absolute (uploadDirectory this) then [] else cwd w"
  let ?N = "canonical_segments (uploadDirectory this)"
  from assms(1) obtain ka d where ka: "resolve w (getFilePath this a) = Inr ka"
    and f: "tree w ka = Some (File d)" and w': "w' = w\<lparr>tree := (tree w)(ka := None)\<rparr>"
    by (auto simp: fs_unlink_Inr)
  from resolve_plain_Inr [OF assms(2) ka] obtain kn where kn: "walk (tree w) ?s0 ?N = Inr kn"
    and d: "tree w kn = Some Dir" and eq: "ka = kn @ [a]"
    by blast
  have kn': "walk (tree w') ?s0 ?N = Inr kn"
    using kn by (rule walk_mono) (use f in \<open>auto simp: w'\<close>)
  have d': "tree w' kn = Some Dir" using d by (simp add: w' eq)
  have c: "cwd w' = cwd w" by (simp add: w')
  have r: "resolve w (getFilePath this b) = Inr (kn @ [b])"
    using assms(3) kn d by (rule resolve_plain_in_directory)
  have r': "resolve w' (getFilePath this b) = Inr (kn @ [b])"
    using assms(3) kn' [folded c] d' by (rule resolve_plain_in_directory)
  show ?thesis
    using r r' by (rule fs_readFile_at) (use assms(4) in \<open>simp add: w' eq\<close>)
qed

lemma made_directory_frame:
  assumes "fs_mkdir (uploadDirectory this) w = Inr w'"
    and "well_formed (tree w)" and "plain_name b"
  shows "fs_readFile (getFilePath this b) w' = fs_readFile (getFilePath this b) w"
proof -
  let ?s0 = "if is_absolute (uploadDirectory this) then [] else cwd w"
  let ?N = "canonical_segments (uploadDirectory this)"
  from assms(1) obtain kd where kd: "resolve w (uploadDirectory this) = Inr kd"
    and fresh: "tree w kd = None" and w': "w' = w\<lparr>tree := (tree w)(kd \<mapsto> Dir)\<rparr>"
    by (auto simp: fs_mkdir_Inr)
  have kn: "walk (tree w) ?s0 ?N = Inr kd"
    using kd by (rule resolve_canonical)
  have kn': "walk (tree w') ?s0 ?N = Inr kd"
    using kn by (rule walk_mono) (auto simp: w')
  have c: "cwd w' = cwd w" by (simp add: w')
  have before: "resolve w (getFilePath this b) = Inl ENOENT"
    unfolding resolve_plain(1) [OF assms(3)] by (simp add: kn fresh)
  have after: "resolve w' (getFilePath this b) = Inr (kd @ [b])"
    using assms(3) kn' [folded c] by (rule resolve_plain_in_directory) (simp add: w')
  have "tree w (kd @ [b]) = None"
  proof (rule ccontr)
    assume "tree w (kd @ [b]) \<noteq> None"
    with assms(2) have "tree w kd = Some Dir" unfolding well_formed_def by blast
    with fresh show False by simp
  qed
  then have "tree w' (kd @ [b]) = None" by (simp add: w')
  with before after show ?thesis by (simp add: fs_readFile_def)
qed


lemma ensureDirectory_alone_cases:
  obtains (same) "tree (snd (ensureDirectory this alone w)) = tree w"
      "cwd (snd (ensureDirectory this alone w)) = cwd w"
  | (made) v where "tree v = tree w" and "cwd v = cwd w"
      and "fst (ensureDirectory this alone w) = Inr ()"
      and "fs_mkdir (uploadDirectory this) v = Inr (snd (ensureDirectory this alone w))"
proof (cases "fs_access (uploadDirectory this) w")
  case (Inr x)
  then have "tree (snd (ensureDirectory this alone w)) = tree w"
    and "cwd (snd (ensureDirectory this alone w)) = cwd w"
    by (simp_all add: ensureDirectory_def Let_def)
  then show ?thesis by (rule same)
next
  case (Inl e)
  let ?v = "logger_debug (trying_to_create (uploadDirectory this)) ''ensureDirectory''
              (logger_debug (ensuring_presence (uploadDirectory this)) ''ensureDirectory'' w)"
  show ?thesis
  proof (cases "fs_mkdir (uploadDirectory this) ?v")
    case rejected: (Inl e')
    with Inl have "tree (snd (ensureDirectory this alone w)) = tree w"
      and "cwd (snd (ensureDirectory this alone w)) = cwd w"
      by (simp_all add: ensureDirectory_def Let_def alone_def)
    then show ?thesis by (rule same)
  next
    case (Inr w3)
    with Inl have a: "fst (ensureDirectory this alone w) = Inr ()"
      and b: "fs_mkdir (uploadDirectory this) ?v = Inr (snd (ensureDirectory this alone w))"
      by (simp_all add: ensureDirectory_def Let_def alone_def)
    have c: "tree ?v = tree w" and d: "cwd ?v = cwd w" by simp_all
    from c d a b show ?thesis by (rule made)
  qed
qed

lemma fs_readFile_same_tree:
  "tree v = tree w \<Longrightarrow> cwd v = cwd w \<Longrightarrow> fs_readFile path v = fs_readFile path w"
  using resolve_same_tree [of v w path]
  by (simp add: fs_readFile_def cong: sum.case_cong option.case_cong)

lemma ensureDirectory_frame:
  assumes "well_formed (tree w)" and "plain_name b"
  shows "fs_readFile (getFilePath this b) (snd (ensureDirectory this alone w))
           = fs_readFile (getFilePath this b) w"
proof (rule ensureDirectory_alone_cases [where this = this and w = w])
  assume "tree (snd (ensureDirectory this alone w)) = tree w"
    and "cwd (snd (ensureDirectory this alone w)) = cwd w"
  then show ?thesis by (rule fs_readFile_same_tree)
next
  fix v
  assume v: "tree v = tree w" "cwd v = cwd w"
    and m: "fs_mkdir (uploadDirectory this) v = Inr (snd (ensureDirectory this alone w))"
  have "fs_readFile (getFilePath this b) (snd (ensureDirectory this alone w))
          = fs_readFile (getFilePath this b) v"
    using m by (rule made_directory_frame) (simp_all add: v(1) assms)
  also have "\<dots> = fs_readFile (getFilePath this b) w"
    using v by (rule fs_readFile_same_tree)
  finally show ?thesis .
qed

lemma saveFile_cases:
  obtains (unwritten) "tree (snd (saveFile this others uuid data w))
        = tree (snd (ensureDirectory this others (logger_debug (writing_to (getFilePath this uuid)) ''saveFile'' w)))"
      "cwd (snd (saveFile this others uuid data w))
        = cwd (snd (ensureDirectory this others (logger_debug (writing_to (getFilePath this uuid)) ''saveFile'' w)))"
  | (written) "fs_writeFile (getFilePath this uuid) data
          (snd (ensureDirectory this others (logger_debug (writing_to (getFilePath this uuid)) ''saveFile'' w)))
        = Inr (snd (saveFile this others uuid data w))"
proof -
  let ?e = "ensureDirectory this others (logger_debug (writing_to (getFilePath this uuid)) ''saveFile'' w)"
  obtain r v where ev: "?e = (r, v)" by (cases ?e)
  show ?thesis
  proof (cases r)
    case (Inl e)
    with ev have eq: "snd (saveFile this others uuid data w) = snd ?e"
      by (simp add: saveFile_def Let_def)
    show ?thesis by (rule unwritten) (simp_all only: eq)
  next
    case (Inr x)
    show ?thesis
    proof (cases "fs_writeFile (getFilePath this uuid) data v")
      case rejected: (Inl e)
      with Inr ev have eq: "snd (saveFile this others uuid data w) = logger_error e ''saveFile'' (snd ?e)"
        by (simp add: saveFile_def Let_def)
      show ?thesis by (rule unwritten) (simp_all only: eq tree_logger cwd_logger)
    next
      case fulfilled: (Inr w3)
      with Inr ev have eq: "snd (saveFile this others uuid data w) = w3"
        by (simp add: saveFile_def Let_def)
      from ev have "snd ?e = v" by simp
      with fulfilled eq have "fs_writeFile (getFilePath this uuid) data (snd ?e)
          = Inr (snd (saveFile this others uuid data w))"
        by (simp only:)
      then show ?thesis by (rule written)
    qed
  qed
qed

lemma saveFile_frame:
  assumes "plain_name a" and "plain_name b" and "a \<noteq> b" and "well_formed (tree w)"
  shows "fs_readFile (getFilePath this b) (snd (saveFile this alone a data w))
           = fs_readFile (getFilePath this b) w"
proof -
  let ?w0 = "logger_debug (writing_to (getFilePath this a)) ''saveFile'' w"
  let ?w1 = "snd (ensureDirectory this alone ?w0)"
  have e: "fs_readFile (getFilePath this b) ?w1 = fs_readFile (getFilePath this b) w"
    using ensureDirectory_frame [where w = ?w0 and b = b and this = this] assms(2,4) by simp
  show ?thesis
  proof (rule saveFile_cases [where this = this and others = alone and uuid = a and data = data and w = w])
    assume "tree (snd (saveFile this alone a data w)) = tree ?w1"
      and "cwd (snd (saveFile this alone a data w)) = cwd ?w1"
    then have "fs_readFile (getFilePath this b) (snd (saveFile this alone a data w))
        = fs_readFile (getFilePath this b) ?w1"
      by (rule fs_readFile_same_tree)
    with e show ?thesis by simp
  next
    assume "fs_writeFile (getFilePath this a) data ?w1 = Inr (snd (saveFile this alone a data w))"
    then have "fs_readFile (getFilePath this b) (snd (saveFile this alone a data w))
        = fs_readFile (getFilePath this b) ?w1"
      using assms(1,2,3) by (rule written_frame)
    with e show ?thesis by simp
  qed
qed

lemma deleteFile_frame:
  assumes "plain_name a" and "plain_name b" and "a \<noteq> b"
  shows "fs_readFile (getFilePath this b) (snd (deleteFile this a u w))
           = fs_readFile (getFilePath this b) w"
proof (cases "fs_unlink (getFilePath this a) w")
  case (Inl e)
  then show ?thesis by (simp add: deleteFile_def Let_def)
next
  case (Inr w')
  then have "snd (deleteFile this a u w) = w'" by (simp add: deleteFile_def Let_def)
  with unlinked_frame [OF Inr assms] show ?thesis by simp
qed


lemma written_tree:
  assumes "fs_writeFile path data w = Inr w'"
  obtains ka where "resolve w' path = Inr ka" and "tree w' = (tree w)(ka \<mapsto> File data)"
    and "cwd w' = cwd w" and "\<forall>p k. resolve w p = Inr k \<longrightarrow> resolve w' p = Inr k"
proof -
  from assms obtain ka where ka: "resolve w path = Inr ka" and nd: "tree w ka \<noteq> Some Dir"
    and w': "w' = w\<lparr>tree := (tree w)(ka \<mapsto> File data)\<rparr>"
    by (auto simp: fs_writeFile_Inr)
  have keep: "resolve w' p = Inr k" if "resolve w p = Inr k" for p k
    using that by (rule resolve_mono) (use nd in \<open>auto simp: w'\<close>)
  show ?thesis
  proof (rule that)
    show "resolve w' path = Inr ka" using ka by (rule keep)
    show "tree w' = (tree w)(ka \<mapsto> File data)" by (simp add: w')
    show "cwd w' = cwd w" by (simp add: w')
    show "\<forall>p k. resolve w p = Inr k \<longrightarrow> resolve w' p = Inr k" using keep by blast
  qed
qed

lemma made_tree:
  assumes "fs_mkdir path w = Inr w'"
  obtains kd where "resolve w' path = Inr kd" and "tree w kd = None"
    and "tree w' = (tree w)(kd \<mapsto> Dir)" and "cwd w' = cwd w"
proof -
  from assms obtain kd where kd: "resolve w path = Inr kd" and fresh: "tree w kd = None"
    and w': "w' = w\<lparr>tree := (tree w)(kd \<mapsto> Dir)\<rparr>"
    by (auto simp: fs_mkdir_Inr)
  have "resolve w' path = Inr kd"
    using kd by (rule resolve_mono) (auto simp: w')
  then show ?thesis
    by (rule that) (simp_all add: w' fresh)
qed

lemma ensureDirectory_changes:
  obtains (same) "tree (snd (ensureDirectory this alone w)) = tree w"
      "cwd (snd (ensureDirectory this alone w)) = cwd w"
  | (made) kd where "resolve (snd (ensureDirectory this alone w)) (uploadDirectory this) = Inr kd"
      and "tree w kd = None"
      and "tree (snd (ensureDirectory this alone w)) = (tree w)(kd \<mapsto> Dir)"
      and "cwd (snd (ensureDirectory this alone w)) = cwd w"
proof (rule ensureDirectory_alone_cases [where this = this and w = w])
  assume "tree (snd (ensureDirectory this alone w)) = tree w"
    and "cwd (snd (ensureDirectory this alone w)) = cwd w"
  then show thesis by (rule same)
next
  fix v
  assume v: "tree v = tree w" "cwd v = cwd w"
    and m: "fs_mkdir (uploadDirectory this) v = Inr (snd (ensureDirectory this alone w))"
  from m obtain kd
    where "resolve (snd (ensureDirectory this alone w)) (uploadDirectory this) = Inr kd"
      and "tree v kd = None"
      and "tree (snd (ensureDirectory this alone w)) = (tree v)(kd \<mapsto> Dir)"
      and "cwd (snd (ensureDirectory this alone w)) = cwd v"
    by (rule made_tree)
  then show thesis
    unfolding v by (rule made)
qed

lemma saveFile_changes:
  "tree (snd (saveFile this alone uuid data w)) k = tree w k
   \<or> resolve (snd (saveFile this alone uuid data w)) (getFilePath this uuid) = Inr k
   \<or> (resolve (snd (saveFile this alone uuid data w)) (uploadDirectory this) = Inr k
        \<and> tree w k = None \<and> tree (snd (saveFile this alone uuid data w)) k = Some Dir)"
proof -
  let ?w0 = "logger_debug (writing_to (getFilePath this uuid)) ''saveFile'' w"
  let ?w1 = "snd (ensureDirectory this alone ?w0)"
  let ?w2 = "snd (saveFile this alone uuid data w)"
  let ?D = "uploadDirectory this"
  let ?p = "getFilePath this uuid"
  have dir: "tree ?w1 k = tree w k \<or> (resolve ?w1 ?D = Inr k \<and> tree w k = None \<and> tree ?w1 k = Some Dir)"
  proof (rule ensureDirectory_changes [where this = this and w = ?w0])
    assume "tree ?w1 = tree ?w0"
    then show ?thesis by simp
  next
    fix kd
    assume "resolve ?w1 ?D = Inr kd" and "tree ?w0 kd = None" and "tree ?w1 = (tree ?w0)(kd \<mapsto> Dir)"
    then show ?thesis by (cases "k = kd") simp_all
  qed
  show ?thesis
  proof (rule saveFile_cases [where this = this and others = alone and uuid = uuid and data = data and w = w])
    assume t: "tree ?w2 = tree ?w1" and c: "cwd ?w2 = cwd ?w1"
    have r: "resolve ?w2 ?D = resolve ?w1 ?D" using t c by (rule resolve_same_tree)
    have tk: "tree ?w2 k = tree ?w1 k" by (simp only: t)
    from dir show ?thesis
    proof
      assume "tree ?w1 k = tree w k"
      then have "tree ?w2 k = tree w k" by (simp only: tk)
      then show ?thesis by (rule disjI1)
    next
      assume "resolve ?w1 ?D = Inr k \<and> tree w k = None \<and> tree ?w1 k = Some Dir"
      then have "resolve ?w2 ?D = Inr k \<and> tree w k = None \<and> tree ?w2 k = Some Dir"
        by (simp only: r tk)
      then show ?thesis by (intro disjI2)
    qed
  next
    assume "fs_writeFile ?p data ?w1 = Inr ?w2"
    then obtain ka where ka: "resolve ?w2 ?p = Inr ka" and t: "tree ?w2 = (tree ?w1)(ka \<mapsto> File data)"
      and "cwd ?w2 = cwd ?w1"
      and keep: "\<forall>p k. resolve ?w1 p = Inr k \<longrightarrow> resolve ?w2 p = Inr k"
      by (rule written_tree)
    show ?thesis
    proof (cases "k = ka")
      case True
      with ka show ?thesis by simp
    next
      case False
      with t have tk: "tree ?w2 k = tree ?w1 k" by simp
      from dir show ?thesis
      proof
        assume "tree ?w1 k = tree w k"
        then have "tree ?w2 k = tree w k" by (simp only: tk)
        then show ?thesis by (rule disjI1)
      next
        assume a: "resolve ?w1 ?D = Inr k \<and> tree w k = None \<and> tree ?w1 k = Some Dir"
        then have "resolve ?w2 ?D = Inr k" by (intro keep [rule_format]) simp
        with a have "resolve ?w2 ?D = Inr k \<and> tree w k = None \<and> tree ?w2 k = Some Dir"
          by (simp only: tk)
        then show ?thesis by (intro disjI2)
      qed
    qed
  qed
qed


section \<open>Where joined paths lie\<close>

lemma directly_under_segments:
  assumes "S \<noteq> []" and "\<And>s. s \<in> set S \<Longrightarrow> kept_segment s"
  shows "directly_under dir ((if is_absolute dir then ''/'' else []) @ join_slash S)
           \<longleftrightarrow> butlast S = canonical_segments dir \<and> plain_name (last S)"
proof -
  let ?p = "(if is_absolute dir then ''/'' else []) @ join_slash S"
  have k: "kept_segment (hd S)" "kept_segment (last S)" using assms by simp_all
  then have h: "hd S \<noteq> []" and l: "last S \<noteq> []" by (simp_all add: kept_segment_def)
  have j: "join_slash S \<noteq> []" using assms(1) l by (rule join_slash_last_not_Nil)
  have "hd (hd S) \<in> set (hd S)" using h by simp
  with k(1) have "hd (hd S) \<noteq> CHR ''/''" unfolding kept_segment_def by metis
  then have hj: "hd (join_slash S) \<noteq> CHR ''/''" using assms(1) h by (simp add: hd_join_slash)
  have sp: "split_slash (join_slash S) = S"
    using assms(1) by (rule split_join_slash) (use assms(2) in \<open>auto simp: kept_segment_def\<close>)
  have ab: "is_absolute ?p = is_absolute dir"
    using j hj by (simp add: is_absolute_def)
  have seg: "split_slash ?p = (if is_absolute dir then [[]] else []) @ S"
    using sp by simp
  show ?thesis
    unfolding directly_under_def Let_def ab seg using assms(1) by (simp add: butlast_append)
qed

lemma getFilePath_segments:
  assumes "uuid \<noteq> []" and "hd uuid \<noteq> CHR ''/''" and "last uuid \<noteq> CHR ''/''"
    and "joined_segments (uploadDirectory this) uuid \<noteq> []"
  shows "directly_under (uploadDirectory this) (getFilePath this uuid)
           \<longleftrightarrow> butlast (joined_segments (uploadDirectory this) uuid)
                   = canonical_segments (uploadDirectory this)
               \<and> plain_name (last (joined_segments (uploadDirectory this) uuid))"
  unfolding getFilePath_def path_join_segments [OF assms]
  using assms(4) by (rule directly_under_segments) (rule joined_segments_kept)

lemma plain_is_directly_under:
  assumes "plain_name a"
  shows "directly_under (uploadDirectory this) (getFilePath this a)"
  using getFilePath_segments [of a this] plain_name_ends [OF assms] assms
  by (simp add: joined_segments_plain)

lemma nested_is_not_directly_under:
  assumes "plain_name a" and "plain_name b"
  shows "\<not> directly_under (uploadDirectory this) (getFilePath this (a @ ''/'' @ b))"
proof -
  from plain_name_ends [OF assms(1)] plain_name_ends [OF assms(2)]
  have "a @ ''/'' @ b \<noteq> []" and "hd (a @ ''/'' @ b) \<noteq> CHR ''/''" and "last (a @ ''/'' @ b) \<noteq> CHR ''/''"
    by simp_all
  moreover have j: "joined_segments (uploadDirectory this) (a @ ''/'' @ b)
      = canonical_segments (uploadDirectory this) @ [a, b]"
    using joined_segments_two [OF assms] by simp
  ultimately show ?thesis
    using getFilePath_segments [of "a @ ''/'' @ b" this] by (simp add: butlast_append)
qed

lemma dot_is_dropped:
  assumes "plain_name a"
  shows "getFilePath this (''./'' @ a) = getFilePath this a"
proof -
  note js = joined_segments_dot [OF assms, of "uploadDirectory this"]
  have "path_join (uploadDirectory this) (''./'' @ a)
      = (if is_absolute (uploadDirectory this) then ''/'' else [])
          @ join_slash (joined_segments (uploadDirectory this) (''./'' @ a))"
  proof (rule path_join_segments)
    show "''./'' @ a \<noteq> []" by simp
    show "hd (''./'' @ a) \<noteq> CHR ''/''" by simp
    show "last (''./'' @ a) \<noteq> CHR ''/''" using plain_name_ends [OF assms] by simp
    show "joined_segments (uploadDirectory this) (''./'' @ a) \<noteq> []" unfolding js by simp
  qed
  then show ?thesis
    unfolding getFilePath_def js path_join_plain [OF assms] .
qed

lemma parent_is_not_directly_under:
  assumes "plain_name a" and "\<not> is_root (uploadDirectory this)"
  shows "\<not> directly_under (uploadDirectory this) (getFilePath this (''../'' @ a))"
proof -
  let ?D = "uploadDirectory this"
  let ?N = "canonical_segments ?D"
  let ?up = "normalize_step (\<not> is_absolute ?D) ?N ''..''"
  have up: "?up \<noteq> ?N"
  proof (cases "?N \<noteq> [] \<and> last ?N \<noteq> ''..''")
    case True
    then have "?up = butlast ?N" by (simp add: normalize_step_def)
    moreover from True have "butlast ?N \<noteq> ?N"
      by (metis append_butlast_last_id append_self_conv not_Cons_self2)
    ultimately show ?thesis by simp
  next
    case False
    show ?thesis
    proof (cases "is_absolute ?D")
      case rel: False
      with False have "?up = ?N @ [''..'']" by (auto simp: normalize_step_def)
      then show ?thesis by simp
    next
      case True
      with assms(2) have ne: "?N \<noteq> []" by (simp add: is_root_def)
      with False have "last ?N = ''..''" by simp
      moreover have "last ?N \<in> set ?N" using ne by simp
      ultimately have "''..'' \<in> set ?N" by simp
      with canonical_segments_absolute [OF True] show ?thesis by simp
    qed
  qed
  from plain_name_ends [OF assms(1)]
  have "''../'' @ a \<noteq> []" and "hd (''../'' @ a) \<noteq> CHR ''/''" and "last (''../'' @ a) \<noteq> CHR ''/''"
    by simp_all
  moreover have "joined_segments ?D (''../'' @ a) = ?up @ [a]"
    using assms(1) by (rule joined_segments_dotdot)
  ultimately show ?thesis
    using getFilePath_segments [of "''../'' @ a" this] up by simp
qed

section \<open>Runs with unusual identifiers\<close>

lemma getFilePath_uploads_examples:
  "getFilePath uploads_backend [] = ''uploads''"
  "getFilePath uploads_backend ''.'' = ''uploads''"
  "getFilePath uploads_backend ''xyz'' = ''uploads/xyz''"
  "getFilePath uploads_backend ''./a'' = ''uploads/a''"
  "getFilePath uploads_backend ''a/../b'' = ''uploads/b''"
  by (simp_all add: getFilePath_def uploads_backend_def path_join_def normalize_path_def normalizeString_def
      normalize_segments_def normalize_step_def)

lemma uploads_is_a_file_runs:
  "fs_readFile ''uploads'' uploads_is_a_file = Inr [9]"
  "fst (saveFile uploads_backend alone [] [1, 2, 3] uploads_is_a_file) = Inr ()"
  "fs_readFile ''uploads'' (snd (saveFile uploads_backend alone [] [1, 2, 3] uploads_is_a_file))
     = Inr [1, 2, 3]"
  "fst (deleteFile uploads_backend [] () uploads_is_a_file) = Inr ()"
  "fs_readFile ''uploads'' (snd (deleteFile uploads_backend [] () uploads_is_a_file))
     = Inl (SystemError ENOENT)"
  by (simp_all add: saveFile_def deleteFile_def ensureDirectory_def getFilePath_uploads_examples
      uploadDirectory_uploads uploads_is_a_file_def fresh_world_def alone_def fs_access_def
      fs_writeFile_def fs_unlink_def fs_readFile_def resolve_def strip_trailing_def
      trailing_slash_def logger_debug_def logger_error_def Let_def)

lemma dotdot_inside_run:
  "fst (saveFile uploads_backend alone ''a/../b'' [1, 2, 3] fresh_world) = Inr ()"
  "fs_readFile ''uploads/b'' (snd (saveFile uploads_backend alone ''a/../b'' [1, 2, 3] fresh_world))
     = Inr [1, 2, 3]"
  by (simp_all add: saveFile_def ensureDirectory_def getFilePath_uploads_examples
      uploadDirectory_uploads fresh_world_def alone_def fs_access_def fs_mkdir_def
      fs_writeFile_def fs_readFile_def resolve_def strip_trailing_def
      trailing_slash_def logger_debug_def logger_error_def Let_def)

lemma directly_under_uploads:
  "directly_under ''uploads'' ''uploads/a''" "directly_under ''uploads'' ''uploads/b''"
  by (simp_all add: directly_under_def is_absolute_def canonical_segments_def plain_name_def
      normalize_segments_def normalize_step_def)

lemma stocked_world_well_formed: "well_formed (tree stocked_world)"
  by (auto simp: well_formed_def stocked_world_def fresh_world_def append_eq_Cons_conv
      split: if_splits)

lemma stocked_world_runs:
  "fs_readFile ''uploads/xyz'' stocked_world = Inr [7]"
  "fst (saveFile uploads_backend alone ''abc'' [1, 2, 3] stocked_world) = Inr ()"
  "fst (deleteFile uploads_backend ''abc'' () stocked_world) = Inr ()"
  by (simp_all add: saveFile_def deleteFile_def ensureDirectory_def getFilePath_uploads_abc
      uploadDirectory_uploads stocked_world_def fresh_world_def alone_def fs_access_def
      fs_writeFile_def fs_unlink_def fs_readFile_def resolve_def strip_trailing_def
      trailing_slash_def logger_debug_def logger_error_def Let_def)

lemma plain_name_examples: "plain_name ''abc''" "plain_name ''xyz''" "plain_name ''a''"
  by (simp_all add: plain_name_def)


lemma saveFile_then_read:
  assumes "saveFile this others uuid content w = (Inr (), w')"
  shows "fs_readFile (getFilePath this uuid) w' = Inr content"
proof -
  from saveFile_round_trip_aux [OF assms] obtain w1
    where "fs_writeFile (getFilePath this uuid) content w1 = Inr w'"
    by blast
  then show ?thesis by (rule written_then_read)
qed

lemma deleteFile_fulfilled_iff:
  "fst (deleteFile this uuid u w) = Inr () \<longleftrightarrow> file_exists (getFilePath this uuid) w"
  by (simp add: deleteFile_outcome)

lemma uploads_is_not_root: "\<not> is_root ''uploads''"
  by (simp add: is_root_def is_absolute_def)


lemma rejected_runs:
  "isl (fst (saveFile uploads_backend alone ''abc'' [1, 2, 3] uploads_is_a_file))"
  "isl (fst (s3_saveFile media_backend ''abc'' [1, 2, 3] fresh_world))"
  "isl (fst (s3_deleteFile media_backend ''abc'' () fresh_world))"
  by (simp_all add: saveFile_def ensureDirectory_def getFilePath_uploads_abc
      uploadDirectory_uploads uploads_is_a_file_def fresh_world_def alone_def fs_access_def
      fs_writeFile_def resolve_def strip_trailing_def trailing_slash_def logger_debug_def
      logger_error_def Let_def s3_saveFile_def s3_deleteFile_def with_client_def
      media_backend_def media_config_def putObject_def removeObject_def)

lemma getFilePath_uploads_parent: "getFilePath uploads_backend ''../a'' = ''a''"
  by (simp add: getFilePath_def uploads_backend_def path_join_def normalize_path_def normalizeString_def
      normalize_segments_def normalize_step_def)

lemma upload_path_file_runs:
  "\<not> is_directory ''uploads'' uploads_is_a_file"
  "\<not> is_directory ''uploads'' (snd (saveFile uploads_backend alone [] [1, 2, 3] uploads_is_a_file))"
  "fst (saveFile uploads_backend alone ''../a'' [1, 2, 3] uploads_is_a_file) = Inr ()"
  "\<not> is_directory ''uploads'' (snd (saveFile uploads_backend alone ''../a'' [1, 2, 3] uploads_is_a_file))"
  "fs_readFile ''a'' (snd (saveFile uploads_backend alone ''../a'' [1, 2, 3] uploads_is_a_file))
     = Inr [1, 2, 3]"
  "fs_readFile ''uploads'' (snd (saveFile uploads_backend alone ''../a'' [1, 2, 3] uploads_is_a_file))
     = Inr [9]"
  by (simp_all add: saveFile_def ensureDirectory_def getFilePath_uploads_examples
      getFilePath_uploads_parent is_directory_def
      uploadDirectory_uploads uploads_is_a_file_def fresh_world_def alone_def fs_access_def
      fs_writeFile_def fs_readFile_def resolve_def strip_trailing_def
      trailing_slash_def logger_debug_def logger_error_def Let_def)

lemma failing_calls:
  "ensureDirectory uploads_backend alone
     (logger_debug (writing_to ''uploads/abc'') ''saveFile'' uploads_is_a_file)
     = (Inr (), logger_debug (ensuring_presence ''uploads'') ''ensureDirectory''
                 (logger_debug (writing_to ''uploads/abc'') ''saveFile'' uploads_is_a_file))"
  "fs_writeFile ''uploads/abc'' [1, 2, 3]
     (logger_debug (ensuring_presence ''uploads'') ''ensureDirectory''
       (logger_debug (writing_to ''uploads/abc'') ''saveFile'' uploads_is_a_file))
     = Inl (SystemError ENOTDIR)"
  "fs_unlink ''uploads/abc'' fresh_world = Inl (SystemError ENOENT)"
  by (simp_all add: ensureDirectory_def uploadDirectory_uploads uploads_is_a_file_def
      fresh_world_def fs_access_def fs_writeFile_def fs_unlink_def resolve_def strip_trailing_def
      trailing_slash_def logger_debug_def Let_def)

lemma failing_requests:
  "client media_backend = Some media_client"
  "config media_backend = Some (s3 media_config)"
  "putObject media_client (bucket (s3 media_config)) ''abc'' [1, 2, 3] fresh_world
     = Inl (S3Error ''NoSuchBucket'')"
  "removeObject media_client (bucket (s3 media_config)) ''abc'' fresh_world
     = Inl (S3Error ''NoSuchBucket'')"
  "presignedGetObject media_client (bucket (s3 media_config)) ''abc''
     (media_world\<lparr>signer := (\<lambda>b k. Inl (S3Error ''AccessDenied''))\<rparr>)
     = Inl (S3Error ''AccessDenied'')"
  by (simp_all add: media_backend_def media_config_def putObject_def removeObject_def
      presignedGetObject_def fresh_world_def)

section \<open>Properties of FilesystemBackend\<close>

text \<open>
  C4. For every identifier, \<^verbatim>\<open>getFileUrl\<close> of the filesystem backend resolves to the
  string \<^verbatim>\<open>/uploads/\<close> followed by the identifier, in every world and whatever the
  second argument is; it never rejects and leaves the world (file tree, object store and
  log) as it was. In particular \<^verbatim>\<open>getFileUrl("abc")\<close> is \<^verbatim>\<open>/uploads/abc\<close>.
\<close>

theorem getFileUrl_shape:
  "getFileUrl this uuid u w = (Inr (''/uploads/'' @ uuid), w)
   \<and> fst (getFileUrl this ''abc'' u w) = Inr ''/uploads/abc''"
  by (simp add: getFileUrl_def)

text \<open>
  C1, as the claim states it, fails. In \<open>uploads_is_a_file\<close> the upload path
  \<^verbatim>\<open>uploads\<close> names a regular file. \<^verbatim>\<open>fs.access\<close> is fulfilled for it, so
  \<^verbatim>\<open>ensureDirectory\<close> creates nothing. \<^verbatim>\<open>saveFile\<close> with the empty identifier then
  writes to the upload path itself, and with the identifier \<^verbatim>\<open>../a\<close> to the path
  \<^verbatim>\<open>a\<close> beside it. Both calls are fulfilled, and the upload path is no directory,
  neither before nor after them.
\<close>

theorem upload_path_stays_a_file:
  "\<not> is_directory ''uploads'' uploads_is_a_file
   \<and> fst (saveFile uploads_backend alone [] [1, 2, 3] uploads_is_a_file) = Inr ()
   \<and> \<not> is_directory ''uploads'' (snd (saveFile uploads_backend alone [] [1, 2, 3] uploads_is_a_file))
   \<and> fs_readFile ''uploads'' (snd (saveFile uploads_backend alone [] [1, 2, 3] uploads_is_a_file))
       = Inr [1, 2, 3]
   \<and> fst (saveFile uploads_backend alone ''../a'' [1, 2, 3] uploads_is_a_file) = Inr ()
   \<and> \<not> is_directory ''uploads''
         (snd (saveFile uploads_backend alone ''../a'' [1, 2, 3] uploads_is_a_file))
   \<and> fs_readFile ''uploads'' (snd (saveFile uploads_backend alone ''../a'' [1, 2, 3] uploads_is_a_file))
       = Inr [9]"
  using uploads_is_a_file_runs(2,3) upload_path_file_runs(1,2,3,4,6)
  by (intro conjI)

text \<open>
  C1, amended. Whenever \<^verbatim>\<open>saveFile(id, c)\<close> is fulfilled, it went through a fulfilled
  \<^verbatim>\<open>ensureDirectory\<close> (started on the file tree the call found), after which
  \<^verbatim>\<open>fs.access\<close> is fulfilled for the configured upload path, and then through a
  fulfilled write of \<open>c\<close> to the joined path of upload directory and identifier; in the
  world the call leaves behind \<^verbatim>\<open>fs.access\<close> is still fulfilled for the upload path
  and a read of the joined path yields exactly \<open>c\<close>. This holds whatever other actors
  do while \<^verbatim>\<open>ensureDirectory\<close> is suspended. The upload path is a directory afterwards
  when \<^verbatim>\<open>fs.access\<close> was rejected for it at the start (it has been created then), and
  when the identifier is a plain name.
\<close>

theorem saveFile_round_trip:
  assumes "saveFile this others uuid content w = (Inr (), w')"
  shows "(\<exists>w0 w1. tree w0 = tree w \<and> cwd w0 = cwd w
            \<and> ensureDirectory this others w0 = (Inr (), w1)
            \<and> fs_access (uploadDirectory this) w1 = Inr ()
            \<and> fs_writeFile (getFilePath this uuid) content w1 = Inr w'
            \<and> fs_access (uploadDirectory this) w' = Inr ()
            \<and> fs_readFile (getFilePath this uuid) w' = Inr content)
         \<and> (isl (fs_access (uploadDirectory this) w) \<longrightarrow> is_directory (uploadDirectory this) w')
         \<and> (plain_name uuid \<longrightarrow> is_directory (uploadDirectory this) w')"
proof -
  let ?w0 = "logger_debug (writing_to (getFilePath this uuid)) ''saveFile'' w"
  from saveFile_Inr [OF assms] obtain w1
    where e: "ensureDirectory this others ?w0 = (Inr (), w1)"
      and wr: "fs_writeFile (getFilePath this uuid) content w1 = Inr w'"
    by blast
  have a1: "fs_access (uploadDirectory this) w1 = Inr ()"
    using e by (rule ensureDirectory_Inr)
  have a2: "fs_access (uploadDirectory this) w' = Inr ()"
    using wr a1 by (rule written_keeps_access)
  have rd: "fs_readFile (getFilePath this uuid) w' = Inr content"
    using wr by (rule written_then_read)
  have "tree ?w0 = tree w \<and> cwd ?w0 = cwd w" by simp
  with e a1 wr a2 rd have first: "\<exists>w0 w1. tree w0 = tree w \<and> cwd w0 = cwd w
            \<and> ensureDirectory this others w0 = (Inr (), w1)
            \<and> fs_access (uploadDirectory this) w1 = Inr ()
            \<and> fs_writeFile (getFilePath this uuid) content w1 = Inr w'
            \<and> fs_access (uploadDirectory this) w' = Inr ()
            \<and> fs_readFile (getFilePath this uuid) w' = Inr content"
    by blast
  have created: "is_directory (uploadDirectory this) w'"
    if "isl (fs_access (uploadDirectory this) w)"
  proof -
    from that obtain x where "fs_access (uploadDirectory this) w = Inl x"
      by (cases "fs_access (uploadDirectory this) w") simp_all
    then have "fs_access (uploadDirectory this) ?w0 = Inl x" by simp
    with e have "is_directory (uploadDirectory this) w1"
      by (rule ensureDirectory_made_directory)
    with wr show ?thesis by (rule written_keeps_directory)
  qed
  have plain: "is_directory (uploadDirectory this) w'" if "plain_name uuid"
    using wr that a1 by (rule written_plain_directory)
  from first created plain show ?thesis by blast
qed

theorem saveFile_round_trip_witness:
  "fst (saveFile uploads_backend alone ''abc'' [1, 2, 3] fresh_world) = Inr ()
   \<and> fs_access ''uploads'' fresh_world = Inl (SystemError ENOENT)
   \<and> fs_access ''uploads'' (snd (saveFile uploads_backend alone ''abc'' [1, 2, 3] fresh_world)) = Inr ()
   \<and> fs_readFile ''uploads/abc'' (snd (saveFile uploads_backend alone ''abc'' [1, 2, 3] fresh_world))
       = Inr [1, 2, 3]
   \<and> plain_name ''abc''
   \<and> is_directory ''uploads'' (snd (saveFile uploads_backend alone ''abc'' [1, 2, 3] fresh_world))
   \<and> fst (saveFile uploads_backend alone ''a/../b'' [1, 2, 3] fresh_world) = Inr ()
   \<and> \<not> plain_name ''a/../b''
   \<and> is_directory ''uploads'' (snd (saveFile uploads_backend alone ''a/../b'' [1, 2, 3] fresh_world))"
proof -
  let ?w' = "snd (saveFile uploads_backend alone ''abc'' [1, 2, 3] fresh_world)"
  let ?v' = "snd (saveFile uploads_backend alone ''a/../b'' [1, 2, 3] fresh_world)"
  have h: "saveFile uploads_backend alone ''abc'' [1, 2, 3] fresh_world = (Inr (), ?w')"
    using saveFile_fresh_world by (simp add: prod_eq_iff)
  have g: "saveFile uploads_backend alone ''a/../b'' [1, 2, 3] fresh_world = (Inr (), ?v')"
    using dotdot_inside_run(1) by (simp add: prod_eq_iff)
  have n: "fs_access ''uploads'' fresh_world = Inl (SystemError ENOENT)"
    by (rule race_access)
  then have i: "isl (fs_access ''uploads'' fresh_world)" by simp
  have p: "plain_name ''abc''" by (simp add: plain_name_def)
  have q: "\<not> plain_name ''a/../b''" by (simp add: plain_name_def)
  note T = saveFile_round_trip [OF h, unfolded getFilePath_uploads_abc uploadDirectory_uploads]
  note U = saveFile_round_trip [OF g, unfolded uploadDirectory_uploads]
  from T have a: "fs_access ''uploads'' ?w' = Inr ()"
    and b: "fs_readFile ''uploads/abc'' ?w' = Inr [1, 2, 3]"
    by blast+
  from T p have c: "is_directory ''uploads'' ?w'" by blast
  from U i have d: "is_directory ''uploads'' ?v'" by blast
  from saveFile_fresh_world n a b p c dotdot_inside_run(1) q d show ?thesis by (intro conjI)
qed

text \<open>
  C3. \<^verbatim>\<open>deleteFile(id)\<close> is fulfilled exactly when the joined path of upload directory
  and identifier names an existing regular file, and is otherwise rejected with the
  \<open>MediaBackendError\<close> "Could not delete file" naming that path. When it is fulfilled,
  the file is gone afterwards (the path no longer exists) and the same call repeated at
  once is rejected with that \<open>MediaBackendError\<close>.
\<close>

theorem deleteFile_removes:
  "fst (deleteFile this uuid u w) =
     (if file_exists (getFilePath this uuid) w then Inr ()
      else Inl (MediaBackendError (could_not_delete (getFilePath this uuid))))
   \<and> (file_exists (getFilePath this uuid) w \<longrightarrow>
        \<not> file_exists (getFilePath this uuid) (snd (deleteFile this uuid u w))
        \<and> fs_access (getFilePath this uuid) (snd (deleteFile this uuid u w))
            = Inl (SystemError ENOENT)
        \<and> fst (deleteFile this uuid u (snd (deleteFile this uuid u w)))
            = Inl (MediaBackendError (could_not_delete (getFilePath this uuid))))"
proof -
  let ?p = "getFilePath this uuid"
  let ?w' = "snd (deleteFile this uuid u w)"
  have gone: "\<not> file_exists ?p ?w' \<and> fs_access ?p ?w' = Inl (SystemError ENOENT)"
    if ex: "file_exists ?p w"
  proof -
    from deleteFile_world [OF ex, of u] obtain k d where k: "resolve w ?p = Inr k"
      and f: "tree w k = Some (File d)" and w': "?w' = w\<lparr>tree := (tree w)(k := None)\<rparr>"
      by (elim exE conjE) (rule that)
    have r: "resolve ?w' ?p = Inr k"
      unfolding w' using k f by (rule unlinked_is_gone)
    have n: "tree ?w' k = None" by (simp add: w')
    from r n show ?thesis by (simp add: file_exists_iff fs_access_def)
  qed
  have again: "fst (deleteFile this uuid u ?w') = Inl (MediaBackendError (could_not_delete ?p))"
    if ex: "file_exists ?p w"
  proof -
    from gone [OF ex] have "\<not> file_exists ?p ?w'" by (rule conjunct1)
    then show ?thesis by (simp only: deleteFile_outcome if_False)
  qed
  show ?thesis
  proof (intro conjI impI)
    show "fst (deleteFile this uuid u w) =
            (if file_exists ?p w then Inr () else Inl (MediaBackendError (could_not_delete ?p)))"
      by (rule deleteFile_outcome)
  next
    assume "file_exists ?p w"
    then show "\<not> file_exists ?p ?w'" by (rule gone [THEN conjunct1])
  next
    assume "file_exists ?p w"
    then show "fs_access ?p ?w' = Inl (SystemError ENOENT)" by (rule gone [THEN conjunct2])
  next
    assume "file_exists ?p w"
    then show "fst (deleteFile this uuid u ?w') = Inl (MediaBackendError (could_not_delete ?p))"
      by (rule again)
  qed
qed


theorem deleteFile_removes_witness:
  "file_exists ''uploads/abc'' (snd (saveFile uploads_backend alone ''abc'' [1, 2, 3] fresh_world))
   \<and> fst (deleteFile uploads_backend ''abc'' ()
            (snd (saveFile uploads_backend alone ''abc'' [1, 2, 3] fresh_world))) = Inr ()
   \<and> \<not> file_exists ''uploads/abc''
        (snd (deleteFile uploads_backend ''abc'' ()
               (snd (saveFile uploads_backend alone ''abc'' [1, 2, 3] fresh_world))))
   \<and> fst (deleteFile uploads_backend ''abc'' ()
            (snd (deleteFile uploads_backend ''abc'' ()
                   (snd (saveFile uploads_backend alone ''abc'' [1, 2, 3] fresh_world)))))
       = Inl (MediaBackendError (could_not_delete ''uploads/abc''))"
proof -
  let ?w = "snd (saveFile uploads_backend alone ''abc'' [1, 2, 3] fresh_world)"
  have h: "saveFile uploads_backend alone ''abc'' [1, 2, 3] fresh_world = (Inr (), ?w)"
    using saveFile_fresh_world by (simp add: prod_eq_iff)
  from saveFile_round_trip_aux [OF h] obtain w1 where
    "fs_writeFile (getFilePath uploads_backend ''abc'') [1, 2, 3] w1 = Inr ?w"
    by blast
  then have "fs_readFile (getFilePath uploads_backend ''abc'') ?w = Inr [1, 2, 3]"
    by (rule written_then_read)
  then have ex: "file_exists ''uploads/abc'' ?w"
    by (simp add: file_exists_def getFilePath_uploads_abc)
  note T = deleteFile_removes [of uploads_backend "''abc''" "()" ?w,
      unfolded getFilePath_uploads_abc]
  from T have "fst (deleteFile uploads_backend ''abc'' () ?w) =
      (if file_exists ''uploads/abc'' ?w then Inr ()
       else Inl (MediaBackendError (could_not_delete ''uploads/abc'')))"
    by (rule conjunct1)
  with ex have a: "fst (deleteFile uploads_backend ''abc'' () ?w) = Inr ()"
    by (simp only: if_True)
  from T ex have
    "\<not> file_exists ''uploads/abc'' (snd (deleteFile uploads_backend ''abc'' () ?w))
     \<and> fs_access ''uploads/abc'' (snd (deleteFile uploads_backend ''abc'' () ?w))
         = Inl (SystemError ENOENT)
     \<and> fst (deleteFile uploads_backend ''abc'' () (snd (deleteFile uploads_backend ''abc'' () ?w)))
         = Inl (MediaBackendError (could_not_delete ''uploads/abc''))"
    by (rule conjunct2 [THEN mp])
  with ex a show ?thesis by blast
qed

text \<open>
  C2, as the claim states it, fails. In \<open>fresh_world\<close> the directory \<^verbatim>\<open>uploads\<close> does
  not exist when \<^verbatim>\<open>fs.access\<close> looks for it; another actor creates it before
  \<^verbatim>\<open>fs.mkdir\<close> is called, which is therefore rejected with \<open>EEXIST\<close>. The
  \<^verbatim>\<open>saveFile\<close> call is then rejected with the \<open>MediaBackendError\<close>
  "Could not create 'uploads'", and the file has not been written.
\<close>

theorem mkdir_EEXIST_is_fatal:
  "fs_access ''uploads'' fresh_world = Inl (SystemError ENOENT)
   \<and> fs_mkdir ''uploads'' (at_mkdir uploads_backend creating_uploads ''abc'' fresh_world)
       = Inl (SystemError EEXIST)
   \<and> fst (saveFile uploads_backend creating_uploads ''abc'' [1, 2, 3] fresh_world)
       = Inl (MediaBackendError (''Could not create '' @ [quote] @ ''uploads'' @ [quote]))
   \<and> fs_readFile ''uploads/abc''
        (snd (saveFile uploads_backend creating_uploads ''abc'' [1, 2, 3] fresh_world))
       = Inl (SystemError ENOENT)"
  using race_access race_mkdir race_saveFile
  by (simp add: could_not_create_def)

text \<open>
  C2, amended. When \<^verbatim>\<open>fs.access\<close> on the upload directory is rejected and the
  \<^verbatim>\<open>fs.mkdir\<close> that follows is rejected too, for whatever reason (that the directory
  exists by then included), \<^verbatim>\<open>saveFile\<close> is rejected with the \<open>MediaBackendError\<close>
  "Could not create" naming the upload directory, and nothing is written: the world it
  leaves is the one \<^verbatim>\<open>fs.mkdir\<close> was called in, with the error logged. When
  \<^verbatim>\<open>fs.access\<close> is fulfilled, \<^verbatim>\<open>fs.mkdir\<close> is not called and \<^verbatim>\<open>saveFile\<close> goes on to the
  write, whose outcome is its outcome.
\<close>

theorem saveFile_mkdir_rejected:
  "(fs_access (uploadDirectory this) w = Inl e
      \<and> fs_mkdir (uploadDirectory this) (at_mkdir this others uuid w) = Inl e' \<longrightarrow>
      saveFile this others uuid buffer w
        = (Inl (MediaBackendError (could_not_create (uploadDirectory this))),
           logger_error e' ''ensureDirectory'' (at_mkdir this others uuid w)))
   \<and> (fs_access (uploadDirectory this) w = Inr () \<longrightarrow>
      (\<exists>w1. tree w1 = tree w \<and> cwd w1 = cwd w
         \<and> saveFile this others uuid buffer w
           = (case fs_writeFile (getFilePath this uuid) buffer w1 of
                Inr w2 \<Rightarrow> (Inr (), w2)
              | Inl e \<Rightarrow> (Inl (MediaBackendError (could_not_save (getFilePath this uuid))),
                          logger_error e ''saveFile'' w1))))"
proof (intro conjI impI)
  assume "fs_access (uploadDirectory this) w = Inl e
      \<and> fs_mkdir (uploadDirectory this) (at_mkdir this others uuid w) = Inl e'"
  then show "saveFile this others uuid buffer w
        = (Inl (MediaBackendError (could_not_create (uploadDirectory this))),
           logger_error e' ''ensureDirectory'' (at_mkdir this others uuid w))"
    by (simp add: saveFile_def ensureDirectory_def Let_def at_mkdir_def)
next
  assume a: "fs_access (uploadDirectory this) w = Inr ()"
  let ?w1 = "logger_debug (ensuring_presence (uploadDirectory this)) ''ensureDirectory''
               (logger_debug (writing_to (getFilePath this uuid)) ''saveFile'' w)"
  have "saveFile this others uuid buffer w
           = (case fs_writeFile (getFilePath this uuid) buffer ?w1 of
                Inr w2 \<Rightarrow> (Inr (), w2)
              | Inl e \<Rightarrow> (Inl (MediaBackendError (could_not_save (getFilePath this uuid))),
                          logger_error e ''saveFile'' ?w1))"
    using a by (simp add: saveFile_def ensureDirectory_def Let_def)
  moreover have "tree ?w1 = tree w \<and> cwd ?w1 = cwd w" by simp
  ultimately show "\<exists>w1. tree w1 = tree w \<and> cwd w1 = cwd w
         \<and> saveFile this others uuid buffer w
           = (case fs_writeFile (getFilePath this uuid) buffer w1 of
                Inr w2 \<Rightarrow> (Inr (), w2)
              | Inl e \<Rightarrow> (Inl (MediaBackendError (could_not_save (getFilePath this uuid))),
                          logger_error e ''saveFile'' w1))"
    by (intro exI [of _ ?w1] conjI) simp_all
qed

theorem saveFile_mkdir_rejected_witness:
  "fs_access ''uploads'' fresh_world = Inl (SystemError ENOENT)
   \<and> fs_mkdir ''uploads'' (at_mkdir uploads_backend creating_uploads ''abc'' fresh_world)
       = Inl (SystemError EEXIST)
   \<and> saveFile uploads_backend creating_uploads ''abc'' [1, 2, 3] fresh_world
       = (Inl (MediaBackendError (could_not_create ''uploads'')),
          logger_error (SystemError EEXIST) ''ensureDirectory''
            (at_mkdir uploads_backend creating_uploads ''abc'' fresh_world))
   \<and> fs_access ''uploads'' (creating_uploads fresh_world) = Inr ()
   \<and> fst (saveFile uploads_backend alone ''abc'' [1, 2, 3] (creating_uploads fresh_world)) = Inr ()"
proof -
  note T = saveFile_mkdir_rejected [of uploads_backend fresh_world "SystemError ENOENT"
      creating_uploads "''abc''" "SystemError EEXIST" "[1, 2, 3]",
      unfolded uploadDirectory_uploads getFilePath_uploads_abc]
  note U = saveFile_mkdir_rejected [of uploads_backend "creating_uploads fresh_world"
      "SystemError ENOENT" alone "''abc''" "SystemError EEXIST" "[1, 2, 3]",
      unfolded uploadDirectory_uploads getFilePath_uploads_abc]
  from T race_access race_mkdir have a:
    "saveFile uploads_backend creating_uploads ''abc'' [1, 2, 3] fresh_world
       = (Inl (MediaBackendError (could_not_create ''uploads'')),
          logger_error (SystemError EEXIST) ''ensureDirectory''
            (at_mkdir uploads_backend creating_uploads ''abc'' fresh_world))"
    by blast
  from U existing_uploads_access obtain w1
    where t: "tree w1 = tree (creating_uploads fresh_world)"
      and c: "cwd w1 = cwd (creating_uploads fresh_world)"
      and s: "saveFile uploads_backend alone ''abc'' [1, 2, 3] (creating_uploads fresh_world)
           = (case fs_writeFile ''uploads/abc'' [1, 2, 3] w1 of
                Inr w2 \<Rightarrow> (Inr (), w2)
              | Inl e \<Rightarrow> (Inl (MediaBackendError (could_not_save ''uploads/abc'')),
                          logger_error e ''saveFile'' w1))"
    by blast
  from existing_uploads_writable [OF t c] obtain v'
    where "fs_writeFile ''uploads/abc'' [1, 2, 3] w1 = Inr v'"
    by blast
  with s have b: "fst (saveFile uploads_backend alone ''abc'' [1, 2, 3] (creating_uploads fresh_world)) = Inr ()"
    by simp
  from race_access race_mkdir a existing_uploads_access b show ?thesis
    by (intro conjI)
qed

text \<open>
  C9, as the claim states it, fails. The identifiers \<^verbatim>\<open>./a\<close> and \<^verbatim>\<open>a/../b\<close> contain
  path separators, the second also a \<^verbatim>\<open>..\<close> segment, and the backend with upload
  directory \<^verbatim>\<open>uploads\<close> maps them to \<^verbatim>\<open>uploads/a\<close> and \<^verbatim>\<open>uploads/b\<close>, which lie directly
  under the upload directory; \<^verbatim>\<open>saveFile\<close> with \<^verbatim>\<open>a/../b\<close> writes the file \<^verbatim>\<open>uploads/b\<close>.
\<close>

theorem separators_can_stay_inside:
  "CHR ''/'' \<in> set ''./a''
   \<and> getFilePath uploads_backend ''./a'' = ''uploads/a''
   \<and> directly_under (uploadDirectory uploads_backend) (getFilePath uploads_backend ''./a'')
   \<and> CHR ''/'' \<in> set ''a/../b'' \<and> ''..'' \<in> set (split_slash ''a/../b'')
   \<and> getFilePath uploads_backend ''a/../b'' = ''uploads/b''
   \<and> directly_under (uploadDirectory uploads_backend) (getFilePath uploads_backend ''a/../b'')
   \<and> fst (saveFile uploads_backend alone ''a/../b'' [1, 2, 3] fresh_world) = Inr ()
   \<and> fs_readFile ''uploads/b'' (snd (saveFile uploads_backend alone ''a/../b'' [1, 2, 3] fresh_world))
       = Inr [1, 2, 3]"
  using dotdot_inside_run directly_under_uploads
  by (simp add: getFilePath_uploads_examples uploadDirectory_uploads)

text \<open>
  C9, amended. The filesystem backend does nothing to the identifier but hand it to
  \<^verbatim>\<open>path.join\<close>: the target path is the joined, normalised path of upload directory and
  identifier; a fulfilled \<^verbatim>\<open>saveFile\<close> has written that path, \<^verbatim>\<open>deleteFile\<close> is fulfilled
  exactly when that path names a file, and \<^verbatim>\<open>getFileUrl\<close> puts the identifier unchanged
  behind \<^verbatim>\<open>/uploads/\<close>. For plain names \<open>a\<close> and \<open>b\<close>, the identifier \<^verbatim>\<open>a/b\<close> is mapped
  to a path that does not lie directly under the upload directory, and so is \<^verbatim>\<open>../a\<close>
  unless the upload directory is the root; the identifier \<^verbatim>\<open>./a\<close> is mapped to the
  path of \<open>a\<close> itself, which lies directly under the upload directory.
\<close>

theorem getFilePath_is_path_join:
  "getFilePath this uuid = path_join (uploadDirectory this) uuid
   \<and> fst (getFileUrl this uuid u w) = Inr (''/uploads/'' @ uuid)
   \<and> (saveFile this others uuid content w = (Inr (), w') \<longrightarrow>
        fs_readFile (path_join (uploadDirectory this) uuid) w' = Inr content)
   \<and> (fst (deleteFile this uuid u w) = Inr ())
        = file_exists (path_join (uploadDirectory this) uuid) w
   \<and> (plain_name a \<and> plain_name b \<longrightarrow>
        \<not> directly_under (uploadDirectory this) (getFilePath this (a @ ''/'' @ b)))
   \<and> (plain_name a \<and> \<not> is_root (uploadDirectory this) \<longrightarrow>
        \<not> directly_under (uploadDirectory this) (getFilePath this (''../'' @ a)))
   \<and> (plain_name a \<longrightarrow>
        directly_under (uploadDirectory this) (getFilePath this a)
        \<and> getFilePath this (''./'' @ a) = getFilePath this a)"
proof (intro conjI impI)
  show "getFilePath this uuid = path_join (uploadDirectory this) uuid"
    by (simp add: getFilePath_def)
  show "fst (getFileUrl this uuid u w) = Inr (''/uploads/'' @ uuid)"
    by (simp add: getFileUrl_def)
  show "fs_readFile (path_join (uploadDirectory this) uuid) w' = Inr content"
    if "saveFile this others uuid content w = (Inr (), w')"
    using saveFile_then_read [OF that] by (simp add: getFilePath_def)
  show "(fst (deleteFile this uuid u w) = Inr ())
          = file_exists (path_join (uploadDirectory this) uuid) w"
    using deleteFile_fulfilled_iff [of this uuid u w] by (simp add: getFilePath_def)
  show "\<not> directly_under (uploadDirectory this) (getFilePath this (a @ ''/'' @ b))"
    if "plain_name a \<and> plain_name b"
    using that by (intro nested_is_not_directly_under) simp_all
  show "\<not> directly_under (uploadDirectory this) (getFilePath this (''../'' @ a))"
    if "plain_name a \<and> \<not> is_root (uploadDirectory this)"
    using that by (intro parent_is_not_directly_under) simp_all
  show "directly_under (uploadDirectory this) (getFilePath this a)" if "plain_name a"
    using that by (rule plain_is_directly_under)
  show "getFilePath this (''./'' @ a) = getFilePath this a" if "plain_name a"
    using that by (rule dot_is_dropped)
qed

theorem getFilePath_is_path_join_witness:
  "plain_name ''a'' \<and> plain_name ''b'' \<and> \<not> is_root (uploadDirectory uploads_backend)
   \<and> getFilePath uploads_backend ''a/b'' = path_join ''uploads'' ''a/b''
   \<and> \<not> directly_under ''uploads'' (getFilePath uploads_backend ''a/b'')
   \<and> \<not> directly_under ''uploads'' (getFilePath uploads_backend ''../a'')
   \<and> directly_under ''uploads'' (getFilePath uploads_backend ''a'')
   \<and> getFilePath uploads_backend ''./a'' = getFilePath uploads_backend ''a''
   \<and> fst (saveFile uploads_backend alone ''abc'' [1, 2, 3] fresh_world) = Inr ()
   \<and> fs_readFile (path_join ''uploads'' ''abc'')
        (snd (saveFile uploads_backend alone ''abc'' [1, 2, 3] fresh_world)) = Inr [1, 2, 3]"
proof -
  let ?w' = "snd (saveFile uploads_backend alone ''abc'' [1, 2, 3] fresh_world)"
  have pa: "plain_name ''a''" and pb: "plain_name ''b''" by (simp_all add: plain_name_def)
  have nr: "\<not> is_root (uploadDirectory uploads_backend)"
    by (simp add: uploadDirectory_uploads uploads_is_not_root)
  have h: "saveFile uploads_backend alone ''abc'' [1, 2, 3] fresh_world = (Inr (), ?w')"
    using saveFile_fresh_world by (simp add: prod_eq_iff)
  note T = getFilePath_is_path_join [of uploads_backend "''a/b''" "()" fresh_world alone
      "[1, 2, 3]" ?w' "''a''" "''b''", unfolded uploadDirectory_uploads]
  note U = getFilePath_is_path_join [of uploads_backend "''abc''" "()" fresh_world alone
      "[1, 2, 3]" ?w' "''a''" "''b''", unfolded uploadDirectory_uploads]
  from T have t1: "getFilePath uploads_backend ''a/b'' = path_join ''uploads'' ''a/b''"
    by (rule conjunct1)
  from T pa pb have t2: "\<not> directly_under ''uploads'' (getFilePath uploads_backend (''a'' @ ''/'' @ ''b''))"
    by blast
  from T pa nr have t3: "\<not> directly_under ''uploads'' (getFilePath uploads_backend (''../'' @ ''a''))"
    unfolding uploadDirectory_uploads by blast
  from T pa have t4: "directly_under ''uploads'' (getFilePath uploads_backend ''a'')
      \<and> getFilePath uploads_backend (''./'' @ ''a'') = getFilePath uploads_backend ''a''"
    by blast
  from U h have t5: "fs_readFile (path_join ''uploads'' ''abc'') ?w' = Inr [1, 2, 3]"
    by blast
  from pa pb nr t1 t2 t3 t4 saveFile_fresh_world t5 show ?thesis
    by simp
qed

text \<open>
  C10, as the claim states it, fails. The empty identifier and \<^verbatim>\<open>.\<close> are distinct and
  without a path separator, and \<^verbatim>\<open>path.join\<close> maps both to the upload directory
  itself. Where a regular file stands in the place of the upload directory,
  \<^verbatim>\<open>saveFile\<close> with the empty identifier replaces its content and \<^verbatim>\<open>deleteFile\<close> with
  the empty identifier removes it, and so what is stored at \<^verbatim>\<open>.\<close> changes.
\<close>

theorem dot_identifiers_share_a_path:
  "([] :: string) \<noteq> ''.'' \<and> CHR ''/'' \<notin> set ([] :: string) \<and> CHR ''/'' \<notin> set ''.''
   \<and> fs_readFile (getFilePath uploads_backend ''.'') uploads_is_a_file = Inr [9]
   \<and> fst (saveFile uploads_backend alone [] [1, 2, 3] uploads_is_a_file) = Inr ()
   \<and> fs_readFile (getFilePath uploads_backend ''.'')
        (snd (saveFile uploads_backend alone [] [1, 2, 3] uploads_is_a_file)) = Inr [1, 2, 3]
   \<and> fst (deleteFile uploads_backend [] () uploads_is_a_file) = Inr ()
   \<and> fs_readFile (getFilePath uploads_backend ''.'')
        (snd (deleteFile uploads_backend [] () uploads_is_a_file)) = Inl (SystemError ENOENT)"
  using uploads_is_a_file_runs by (simp add: getFilePath_uploads_examples)

text \<open>
  C10, amended. Let \<open>id1\<close> and \<open>id2\<close> be distinct plain names (not empty, not
  \<^verbatim>\<open>.\<close> or \<^verbatim>\<open>..\<close>, without a path separator), and let the file tree be well formed.
  Then \<^verbatim>\<open>saveFile(id1, c)\<close> and \<^verbatim>\<open>deleteFile(id1)\<close>, run without interference, leave what
  a read of the path of \<open>id2\<close> yields as it was. Moreover, for every identifier, the only
  nodes of the tree that \<^verbatim>\<open>saveFile\<close> changes are the one its own path resolves to and
  the one the upload directory resolves to, which then did not exist before and is a
  directory afterwards.
\<close>

theorem other_identifiers_untouched:
  assumes "plain_name id1" and "plain_name id2" and "id1 \<noteq> id2" and "well_formed (tree w)"
  shows "fs_readFile (getFilePath this id2) (snd (saveFile this alone id1 content w))
           = fs_readFile (getFilePath this id2) w
         \<and> fs_readFile (getFilePath this id2) (snd (deleteFile this id1 u w))
           = fs_readFile (getFilePath this id2) w
         \<and> (\<forall>uuid k.
              tree (snd (saveFile this alone uuid content w)) k = tree w k
              \<or> resolve (snd (saveFile this alone uuid content w)) (getFilePath this uuid) = Inr k
              \<or> (resolve (snd (saveFile this alone uuid content w)) (uploadDirectory this) = Inr k
                   \<and> tree w k = None
                   \<and> tree (snd (saveFile this alone uuid content w)) k = Some Dir))"
  using saveFile_frame [OF assms] deleteFile_frame [OF assms(1,2,3)] saveFile_changes
  by (intro conjI allI)

theorem other_identifiers_untouched_witness:
  "plain_name ''abc'' \<and> plain_name ''xyz'' \<and> ''abc'' \<noteq> ''xyz''
   \<and> well_formed (tree stocked_world)
   \<and> fs_readFile ''uploads/xyz'' stocked_world = Inr [7]
   \<and> fst (saveFile uploads_backend alone ''abc'' [1, 2, 3] stocked_world) = Inr ()
   \<and> fs_readFile ''uploads/xyz'' (snd (saveFile uploads_backend alone ''abc'' [1, 2, 3] stocked_world))
       = Inr [7]
   \<and> fst (deleteFile uploads_backend ''abc'' () stocked_world) = Inr ()
   \<and> fs_readFile ''uploads/xyz'' (snd (deleteFile uploads_backend ''abc'' () stocked_world))
       = Inr [7]"
proof -
  have ne: "''abc'' \<noteq> ''xyz''" by simp
  note T = other_identifiers_untouched [OF plain_name_examples(1,2) ne stocked_world_well_formed,
      of uploads_backend "[1, 2, 3]" "()", unfolded getFilePath_uploads_examples]
  from T have a: "fs_readFile ''uploads/xyz''
        (snd (saveFile uploads_backend alone ''abc'' [1, 2, 3] stocked_world))
      = fs_readFile ''uploads/xyz'' stocked_world"
    by (rule conjunct1)
  from T have b: "fs_readFile ''uploads/xyz''
        (snd (deleteFile uploads_backend ''abc'' () stocked_world))
      = fs_readFile ''uploads/xyz'' stocked_world"
    by (rule conjunct2 [THEN conjunct1])
  from plain_name_examples(1,2) ne stocked_world_well_formed stocked_world_runs a b
  show ?thesis by simp
qed

section \<open>Properties of S3Backend\<close>

text \<open>
  C8. When the configuration selects another backend than S3, the constructor returns
  a backend whose \<^verbatim>\<open>client\<close> and \<^verbatim>\<open>config\<close> are undefined, and each of its three
  operations, in every world and for every identifier, is rejected with the
  \<open>MediaBackendError\<close> of that operation: the \<open>TypeError\<close> of the property read is
  caught (it is what the error log receives) and does not reach the caller.
\<close>

theorem inactive_S3Backend_rejects:
  assumes "use mediaConfig \<noteq> S3"
  shows "\<exists>this. S3Backend new_URL new_Client mediaConfig = Inr this \<and> client this = None \<and> config this = None
           \<and> s3_saveFile this uuid buffer w
               = (Inl (MediaBackendError (s3_could_not_save uuid)), logger_error TypeError ''saveFile'' w)
           \<and> s3_deleteFile this uuid u w
               = (Inl (MediaBackendError (s3_could_not_delete uuid)), logger_error TypeError ''deleteFile'' w)
           \<and> s3_getFileUrl this uuid u w
               = (Inl (MediaBackendError (s3_could_not_get_url uuid)), logger_error TypeError ''getFileUrl'' w)"
  using assms
  by (simp add: S3Backend_def s3_saveFile_def s3_deleteFile_def s3_getFileUrl_def with_client_def)

theorem inactive_S3Backend_rejects_witness:
  "use (media_config\<lparr>use := FILESYSTEM\<rparr>) \<noteq> S3
   \<and> (\<exists>this. S3Backend one_URL checking_Client (media_config\<lparr>use := FILESYSTEM\<rparr>) = Inr this
         \<and> fst (s3_saveFile this ''abc'' [1, 2, 3] media_world)
             = Inl (MediaBackendError (s3_could_not_save ''abc''))
         \<and> fst (s3_deleteFile this ''abc'' () media_world)
             = Inl (MediaBackendError (s3_could_not_delete ''abc''))
         \<and> fst (s3_getFileUrl this ''abc'' () media_world)
             = Inl (MediaBackendError (s3_could_not_get_url ''abc'')))"
proof -
  have h: "use (media_config\<lparr>use := FILESYSTEM\<rparr>) \<noteq> S3" by simp
  from inactive_S3Backend_rejects [OF h, of one_URL checking_Client "''abc''" "[1, 2, 3]" media_world "()"]
  obtain this where "S3Backend one_URL checking_Client (media_config\<lparr>use := FILESYSTEM\<rparr>) = Inr this"
    and "s3_saveFile this ''abc'' [1, 2, 3] media_world
          = (Inl (MediaBackendError (s3_could_not_save ''abc'')), logger_error TypeError ''saveFile'' media_world)"
    and "s3_deleteFile this ''abc'' () media_world
          = (Inl (MediaBackendError (s3_could_not_delete ''abc'')), logger_error TypeError ''deleteFile'' media_world)"
    and "s3_getFileUrl this ''abc'' () media_world
          = (Inl (MediaBackendError (s3_could_not_get_url ''abc'')), logger_error TypeError ''getFileUrl'' media_world)"
    by (elim exE conjE) (rule that)
  then show ?thesis using h by (intro conjI exI [of _ this]) simp_all
qed

text \<open>
  C7. When the configuration selects the S3 backend and the endpoint parses to the URL
  \<open>u\<close>, the constructor hands \<^verbatim>\<open>new Client\<close> options whose host is the host name of
  \<open>u\<close>, whose TLS flag is set exactly when the protocol of \<open>u\<close> is \<^verbatim>\<open>https:\<close>, and
  whose port is \<^verbatim>\<open>determinePort(url)\<close>: undefined when \<open>u\<close> has no port, and the
  number \<open>n\<close> when the port of \<open>u\<close> is the decimal numeral of \<open>n\<close> (for every \<open>n\<close>
  that a double holds exactly, so for every port number). The credentials, region and
  addressing mode are those of the configuration. The backend holds the S3 configuration
  and the client that \<^verbatim>\<open>new Client\<close> returns for these options; when \<^verbatim>\<open>new Client\<close>
  refuses them, its exception leaves the constructor.
\<close>

theorem S3Backend_endpoint:
  assumes "use mediaConfig = S3" and "new_URL (endPoint (s3 mediaConfig)) = Inr u"
  shows "S3Backend new_URL new_Client mediaConfig
          = (case new_Client \<lparr>opt_endPoint = url_hostname u,
                               opt_port = determinePort u,
                               opt_useSSL = (url_protocol u = ''https:''),
                               opt_accessKey = accessKeyId (s3 mediaConfig),
                               opt_secretKey = secretAccessKey (s3 mediaConfig),
                               opt_pathStyle = pathStyle (s3 mediaConfig),
                               opt_region = region (s3 mediaConfig)\<rparr> of
               Inl e \<Rightarrow> Inl e
             | Inr c \<Rightarrow> Inr \<lparr>config = Some (s3 mediaConfig), client = Some c\<rparr>)
         \<and> (url_port u = [] \<longrightarrow> determinePort u = None)
         \<and> (\<forall>n. n < 2 ^ 53 \<and> url_port u = decimal n \<longrightarrow> determinePort u = Some (Number (int n)))"
proof -
  have "S3Backend new_URL new_Client mediaConfig
          = (case new_Client \<lparr>opt_endPoint = url_hostname u,
                               opt_port = determinePort u,
                               opt_useSSL = (url_protocol u = ''https:''),
                               opt_accessKey = accessKeyId (s3 mediaConfig),
                               opt_secretKey = secretAccessKey (s3 mediaConfig),
                               opt_pathStyle = pathStyle (s3 mediaConfig),
                               opt_region = region (s3 mediaConfig)\<rparr> of
               Inl e \<Rightarrow> Inl e
             | Inr c \<Rightarrow> Inr \<lparr>config = Some (s3 mediaConfig), client = Some c\<rparr>)"
    using assms by (simp add: S3Backend_def Let_def)
  moreover have "url_port u = [] \<longrightarrow> determinePort u = None"
    by (simp add: determinePort_def parseInt_empty)
  moreover have "\<forall>n. n < 2 ^ 53 \<and> url_port u = decimal n \<longrightarrow> determinePort u = Some (Number (int n))"
    by (simp add: determinePort_def parseInt_decimal)
  ultimately show ?thesis by (intro conjI)
qed

theorem S3Backend_endpoint_witness:
  "use media_config = S3
   \<and> one_URL (endPoint (s3 media_config))
       = Inr \<lparr>url_protocol = ''https:'', url_hostname = ''s3.example.org'', url_port = decimal 9000\<rparr>
   \<and> (9000 :: nat) < 2 ^ 53
   \<and> S3Backend one_URL checking_Client media_config
       = Inr \<lparr>config = Some (s3 media_config),
              client = Some (Client \<lparr>opt_endPoint = ''s3.example.org'', opt_port = Some (Number 9000),
                                     opt_useSSL = True, opt_accessKey = ''key'',
                                     opt_secretKey = ''secret'', opt_pathStyle = True,
                                     opt_region = ''us-east-1''\<rparr>)\<rparr>
   \<and> use local_config = S3
   \<and> one_URL (endPoint (s3 local_config))
       = Inr \<lparr>url_protocol = ''http:'', url_hostname = ''minio.local'', url_port = []\<rparr>
   \<and> S3Backend one_URL checking_Client local_config
       = Inr \<lparr>config = Some (s3 local_config),
              client = Some (Client \<lparr>opt_endPoint = ''minio.local'', opt_port = None,
                                     opt_useSSL = False, opt_accessKey = ''key'',
                                     opt_secretKey = ''secret'', opt_pathStyle = True,
                                     opt_region = ''us-east-1''\<rparr>)\<rparr>
   \<and> use bracket_config = S3
   \<and> one_URL (endPoint (s3 bracket_config))
       = Inr \<lparr>url_protocol = ''http:'', url_hostname = ''[::1]'', url_port = decimal 9000\<rparr>
   \<and> S3Backend one_URL checking_Client bracket_config = Inl (S3Error ''InvalidEndpointError'')"
proof -
  let ?u = "\<lparr>url_protocol = ''https:'', url_hostname = ''s3.example.org'', url_port = decimal 9000\<rparr>"
  let ?v = "\<lparr>url_protocol = ''http:'', url_hostname = ''minio.local'', url_port = []\<rparr>"
  let ?b = "\<lparr>url_protocol = ''http:'', url_hostname = ''[::1]'', url_port = decimal 9000\<rparr>"
  have d: "decimal 9000 = [0x39, 0x30, 0x30, 0x30]"
    by (simp add: decimal.simps digit_char_def)
  have n: "(9000 :: nat) < 2 ^ 53" by simp
  have h1: "use media_config = S3" by (simp add: media_config_def)
  have h2: "one_URL (endPoint (s3 media_config)) = Inr ?u"
    by (simp add: media_config_def one_URL_def d)
  have g1: "use local_config = S3" by (simp add: local_config_def media_config_def)
  have g2: "one_URL (endPoint (s3 local_config)) = Inr ?v"
    by (simp add: local_config_def media_config_def one_URL_def)
  have b1: "use bracket_config = S3" by (simp add: bracket_config_def media_config_def)
  have b2: "one_URL (endPoint (s3 bracket_config)) = Inr ?b"
    by (simp add: bracket_config_def media_config_def one_URL_def d)
  note T = S3Backend_endpoint [of media_config one_URL ?u checking_Client, OF h1 h2]
  note U = S3Backend_endpoint [of local_config one_URL ?v checking_Client, OF g1 g2]
  note V = S3Backend_endpoint [of bracket_config one_URL ?b checking_Client, OF b1 b2]
  have "determinePort ?u = Some (Number (int 9000))"
    by (intro T [THEN conjunct2, THEN conjunct2, rule_format] conjI) (simp_all add: n)
  with T [THEN conjunct1] have a: "S3Backend one_URL checking_Client media_config
       = Inr \<lparr>config = Some (s3 media_config),
              client = Some (Client \<lparr>opt_endPoint = ''s3.example.org'', opt_port = Some (Number 9000),
                                     opt_useSSL = True, opt_accessKey = ''key'',
                                     opt_secretKey = ''secret'', opt_pathStyle = True,
                                     opt_region = ''us-east-1''\<rparr>)\<rparr>"
    by (simp add: checking_Client_def media_config_def)
  have "determinePort ?v = None"
    by (intro U [THEN conjunct2, THEN conjunct1, rule_format]) simp
  with U [THEN conjunct1] have b: "S3Backend one_URL checking_Client local_config
       = Inr \<lparr>config = Some (s3 local_config),
              client = Some (Client \<lparr>opt_endPoint = ''minio.local'', opt_port = None,
                                     opt_useSSL = False, opt_accessKey = ''key'',
                                     opt_secretKey = ''secret'', opt_pathStyle = True,
                                     opt_region = ''us-east-1''\<rparr>)\<rparr>"
    by (simp add: checking_Client_def local_config_def media_config_def)
  from V [THEN conjunct1]
  have c: "S3Backend one_URL checking_Client bracket_config = Inl (S3Error ''InvalidEndpointError'')"
    by (simp add: checking_Client_def)
  from h1 h2 n a g1 g2 b b1 b2 c show ?thesis by (intro conjI)
qed

section \<open>Properties of both backends\<close>

text \<open>
  C6. Whatever an operation of either backend is rejected with is a
  \<open>MediaBackendError\<close>, and its message is fixed by the operation and the identifier or
  path alone: "Could not create" with the upload directory or "Could not save file" with
  the joined path for the filesystem \<^verbatim>\<open>saveFile\<close>, "Could not delete file" with the joined
  path for the filesystem \<^verbatim>\<open>deleteFile\<close>, and for the S3 operations "Could not save
  file", "Could not delete" and "Could not get URL for" with the identifier. No
  \<open>SystemError\<close>, \<open>S3Error\<close> or \<open>TypeError\<close> reaches the caller.
  Conversely, no failure of an underlying call is swallowed: when \<^verbatim>\<open>fs.mkdir\<close> (called
  after a rejected \<^verbatim>\<open>fs.access\<close>), \<^verbatim>\<open>fs.writeFile\<close>, \<^verbatim>\<open>fs.unlink\<close>, \<^verbatim>\<open>putObject\<close>,
  \<^verbatim>\<open>removeObject\<close> or \<^verbatim>\<open>presignedGetObject\<close> is rejected with an error \<open>e\<close>, whatever
  \<open>e\<close> is, the operation is rejected with its \<open>MediaBackendError\<close>, and it leaves the
  world in which the call failed with \<open>e\<close> added to the error log. A rejected
  \<^verbatim>\<open>fs.access\<close> alone is no failure of \<^verbatim>\<open>saveFile\<close>: it makes it call \<^verbatim>\<open>fs.mkdir\<close>.
\<close>

theorem rejections_are_MediaBackendErrors:
  "(\<forall>e. fst (saveFile this others uuid buffer w) = Inl e \<longrightarrow>
        e = MediaBackendError (''Could not create '' @ [quote] @ uploadDirectory this @ [quote])
        \<or> e = MediaBackendError (''Could not save file '' @ [quote] @ getFilePath this uuid @ [quote]))
   \<and> (\<forall>e. fst (deleteFile this uuid u w) = Inl e \<longrightarrow>
        e = MediaBackendError (''Could not delete file '' @ [quote] @ getFilePath this uuid @ [quote]))
   \<and> (\<forall>e. fst (s3_saveFile that uuid buffer w) = Inl e \<longrightarrow>
        e = MediaBackendError (''Could not save file '' @ uuid @ '' on S3''))
   \<and> (\<forall>e. fst (s3_deleteFile that uuid u w) = Inl e \<longrightarrow>
        e = MediaBackendError (''Could not delete '' @ [quote] @ uuid @ [quote] @ '' on S3''))
   \<and> (\<forall>e. fst (s3_getFileUrl that uuid u w) = Inl e \<longrightarrow>
        e = MediaBackendError (''Could not get URL for '' @ [quote] @ uuid @ [quote] @ '' on S3''))
   \<and> (\<forall>e e'. fs_access (uploadDirectory this) w = Inl e
          \<and> fs_mkdir (uploadDirectory this) (at_mkdir this others uuid w) = Inl e' \<longrightarrow>
        saveFile this others uuid buffer w
          = (Inl (MediaBackendError (''Could not create '' @ [quote] @ uploadDirectory this @ [quote])),
             logger_error e' ''ensureDirectory'' (at_mkdir this others uuid w)))
   \<and> (\<forall>w1 e. ensureDirectory this others
                 (logger_debug (writing_to (getFilePath this uuid)) ''saveFile'' w) = (Inr (), w1)
          \<and> fs_writeFile (getFilePath this uuid) buffer w1 = Inl e \<longrightarrow>
        saveFile this others uuid buffer w
          = (Inl (MediaBackendError (''Could not save file '' @ [quote] @ getFilePath this uuid @ [quote])),
             logger_error e ''saveFile'' w1))
   \<and> (\<forall>e. fs_unlink (getFilePath this uuid) w = Inl e \<longrightarrow>
        deleteFile this uuid u w
          = (Inl (MediaBackendError (''Could not delete file '' @ [quote] @ getFilePath this uuid @ [quote])),
             logger_error e ''deleteFile'' w))
   \<and> (\<forall>c cfg e. client that = Some c \<and> config that = Some cfg
          \<and> putObject c (bucket cfg) uuid buffer w = Inl e \<longrightarrow>
        s3_saveFile that uuid buffer w
          = (Inl (MediaBackendError (''Could not save file '' @ uuid @ '' on S3'')),
             logger_error e ''saveFile'' w))
   \<and> (\<forall>c cfg e. client that = Some c \<and> config that = Some cfg
          \<and> removeObject c (bucket cfg) uuid w = Inl e \<longrightarrow>
        s3_deleteFile that uuid u w
          = (Inl (MediaBackendError (''Could not delete '' @ [quote] @ uuid @ [quote] @ '' on S3'')),
             logger_error e ''deleteFile'' w))
   \<and> (\<forall>c cfg e. client that = Some c \<and> config that = Some cfg
          \<and> presignedGetObject c (bucket cfg) uuid w = Inl e \<longrightarrow>
        s3_getFileUrl that uuid u w
          = (Inl (MediaBackendError (''Could not get URL for '' @ [quote] @ uuid @ [quote] @ '' on S3'')),
             logger_error e ''getFileUrl'' w))"
proof (intro conjI allI impI; (elim conjE)?)
  fix e assume "fst (saveFile this others uuid buffer w) = Inl e"
  then show "e = MediaBackendError (''Could not create '' @ [quote] @ uploadDirectory this @ [quote])
        \<or> e = MediaBackendError (''Could not save file '' @ [quote] @ getFilePath this uuid @ [quote])"
    by (rule saveFile_rejections [unfolded could_not_create_def could_not_save_def])
next
  fix e assume "fst (deleteFile this uuid u w) = Inl e"
  then show "e = MediaBackendError (''Could not delete file '' @ [quote] @ getFilePath this uuid @ [quote])"
    by (rule deleteFile_rejections [unfolded could_not_delete_def])
next
  fix e assume "fst (s3_saveFile that uuid buffer w) = Inl e"
  then show "e = MediaBackendError (''Could not save file '' @ uuid @ '' on S3'')"
    by (rule s3_rejections(1) [unfolded s3_could_not_save_def])
next
  fix e assume "fst (s3_deleteFile that uuid u w) = Inl e"
  then show "e = MediaBackendError (''Could not delete '' @ [quote] @ uuid @ [quote] @ '' on S3'')"
    by (rule s3_rejections(2) [unfolded s3_could_not_delete_def])
next
  fix e assume "fst (s3_getFileUrl that uuid u w) = Inl e"
  then show "e = MediaBackendError (''Could not get URL for '' @ [quote] @ uuid @ [quote] @ '' on S3'')"
    by (rule s3_rejections(3) [unfolded s3_could_not_get_url_def])
next
  fix e e' assume "fs_access (uploadDirectory this) w = Inl e"
    and "fs_mkdir (uploadDirectory this) (at_mkdir this others uuid w) = Inl e'"
  then show "saveFile this others uuid buffer w
          = (Inl (MediaBackendError (''Could not create '' @ [quote] @ uploadDirectory this @ [quote])),
             logger_error e' ''ensureDirectory'' (at_mkdir this others uuid w))"
    by (rule saveFile_mkdir_failure [unfolded could_not_create_def])
next
  fix w1 e assume "ensureDirectory this others
                 (logger_debug (writing_to (getFilePath this uuid)) ''saveFile'' w) = (Inr (), w1)"
    and "fs_writeFile (getFilePath this uuid) buffer w1 = Inl e"
  then show "saveFile this others uuid buffer w
          = (Inl (MediaBackendError (''Could not save file '' @ [quote] @ getFilePath this uuid @ [quote])),
             logger_error e ''saveFile'' w1)"
    by (rule saveFile_write_failure [unfolded could_not_save_def])
next
  fix e assume "fs_unlink (getFilePath this uuid) w = Inl e"
  then show "deleteFile this uuid u w
          = (Inl (MediaBackendError (''Could not delete file '' @ [quote] @ getFilePath this uuid @ [quote])),
             logger_error e ''deleteFile'' w)"
    by (rule deleteFile_failure [unfolded could_not_delete_def])
next
  fix c cfg e assume "client that = Some c" and "config that = Some cfg"
    and "putObject c (bucket cfg) uuid buffer w = Inl e"
  then show "s3_saveFile that uuid buffer w
          = (Inl (MediaBackendError (''Could not save file '' @ uuid @ '' on S3'')),
             logger_error e ''saveFile'' w)"
    by (rule s3_saveFile_failure [unfolded s3_could_not_save_def])
next
  fix c cfg e assume "client that = Some c" and "config that = Some cfg"
    and "removeObject c (bucket cfg) uuid w = Inl e"
  then show "s3_deleteFile that uuid u w
          = (Inl (MediaBackendError (''Could not delete '' @ [quote] @ uuid @ [quote] @ '' on S3'')),
             logger_error e ''deleteFile'' w)"
    by (rule s3_deleteFile_failure [unfolded s3_could_not_delete_def])
next
  fix c cfg e assume "client that = Some c" and "config that = Some cfg"
    and "presignedGetObject c (bucket cfg) uuid w = Inl e"
  then show "s3_getFileUrl that uuid u w
          = (Inl (MediaBackendError (''Could not get URL for '' @ [quote] @ uuid @ [quote] @ '' on S3'')),
             logger_error e ''getFileUrl'' w)"
    by (rule s3_getFileUrl_failure [unfolded s3_could_not_get_url_def])
qed

theorem rejections_are_MediaBackendErrors_witness:
  "fs_access ''uploads'' fresh_world = Inl (SystemError ENOENT)
   \<and> fs_mkdir ''uploads'' (at_mkdir uploads_backend creating_uploads ''abc'' fresh_world)
       = Inl (SystemError EEXIST)
   \<and> saveFile uploads_backend creating_uploads ''abc'' [1, 2, 3] fresh_world
       = (Inl (MediaBackendError (''Could not create '' @ [quote] @ ''uploads'' @ [quote])),
          logger_error (SystemError EEXIST) ''ensureDirectory''
            (at_mkdir uploads_backend creating_uploads ''abc'' fresh_world))
   \<and> ensureDirectory uploads_backend alone
        (logger_debug (writing_to ''uploads/abc'') ''saveFile'' uploads_is_a_file)
       = (Inr (), logger_debug (ensuring_presence ''uploads'') ''ensureDirectory''
                   (logger_debug (writing_to ''uploads/abc'') ''saveFile'' uploads_is_a_file))
   \<and> fs_writeFile ''uploads/abc'' [1, 2, 3]
        (logger_debug (ensuring_presence ''uploads'') ''ensureDirectory''
          (logger_debug (writing_to ''uploads/abc'') ''saveFile'' uploads_is_a_file))
       = Inl (SystemError ENOTDIR)
   \<and> saveFile uploads_backend alone ''abc'' [1, 2, 3] uploads_is_a_file
       = (Inl (MediaBackendError (''Could not save file '' @ [quote] @ ''uploads/abc'' @ [quote])),
          logger_error (SystemError ENOTDIR) ''saveFile''
            (logger_debug (ensuring_presence ''uploads'') ''ensureDirectory''
              (logger_debug (writing_to ''uploads/abc'') ''saveFile'' uploads_is_a_file)))
   \<and> fs_unlink ''uploads/abc'' fresh_world = Inl (SystemError ENOENT)
   \<and> deleteFile uploads_backend ''abc'' () fresh_world
       = (Inl (MediaBackendError (''Could not delete file '' @ [quote] @ ''uploads/abc'' @ [quote])),
          logger_error (SystemError ENOENT) ''deleteFile'' fresh_world)
   \<and> client media_backend = Some media_client
   \<and> config media_backend = Some (s3 media_config)
   \<and> putObject media_client (bucket (s3 media_config)) ''abc'' [1, 2, 3] fresh_world
       = Inl (S3Error ''NoSuchBucket'')
   \<and> s3_saveFile media_backend ''abc'' [1, 2, 3] fresh_world
       = (Inl (MediaBackendError (''Could not save file '' @ ''abc'' @ '' on S3'')),
          logger_error (S3Error ''NoSuchBucket'') ''saveFile'' fresh_world)
   \<and> removeObject media_client (bucket (s3 media_config)) ''abc'' fresh_world
       = Inl (S3Error ''NoSuchBucket'')
   \<and> s3_deleteFile media_backend ''abc'' () fresh_world
       = (Inl (MediaBackendError (''Could not delete '' @ [quote] @ ''abc'' @ [quote] @ '' on S3'')),
          logger_error (S3Error ''NoSuchBucket'') ''deleteFile'' fresh_world)
   \<and> presignedGetObject media_client (bucket (s3 media_config)) ''abc''
        (media_world\<lparr>signer := (\<lambda>b k. Inl (S3Error ''AccessDenied''))\<rparr>)
       = Inl (S3Error ''AccessDenied'')
   \<and> s3_getFileUrl media_backend ''abc'' ()
        (media_world\<lparr>signer := (\<lambda>b k. Inl (S3Error ''AccessDenied''))\<rparr>)
       = (Inl (MediaBackendError (''Could not get URL for '' @ [quote] @ ''abc'' @ [quote] @ '' on S3'')),
          logger_error (S3Error ''AccessDenied'') ''getFileUrl''
            (media_world\<lparr>signer := (\<lambda>b k. Inl (S3Error ''AccessDenied''))\<rparr>))
   \<and> (fst (saveFile uploads_backend alone ''abc'' [1, 2, 3] uploads_is_a_file)
        = Inl (MediaBackendError (''Could not create '' @ [quote] @ ''uploads'' @ [quote]))
      \<or> fst (saveFile uploads_backend alone ''abc'' [1, 2, 3] uploads_is_a_file)
        = Inl (MediaBackendError (''Could not save file '' @ [quote] @ ''uploads/abc'' @ [quote])))
   \<and> fst (deleteFile uploads_backend ''abc'' () fresh_world)
       = Inl (MediaBackendError (''Could not delete file '' @ [quote] @ ''uploads/abc'' @ [quote]))
   \<and> fst (s3_saveFile media_backend ''abc'' [1, 2, 3] fresh_world)
       = Inl (MediaBackendError (''Could not save file '' @ ''abc'' @ '' on S3''))
   \<and> fst (s3_deleteFile media_backend ''abc'' () fresh_world)
       = Inl (MediaBackendError (''Could not delete '' @ [quote] @ ''abc'' @ [quote] @ '' on S3''))
   \<and> fst (s3_getFileUrl media_backend ''abc'' ()
            (media_world\<lparr>signer := (\<lambda>b k. Inl (S3Error ''AccessDenied''))\<rparr>))
       = Inl (MediaBackendError (''Could not get URL for '' @ [quote] @ ''abc'' @ [quote] @ '' on S3''))"
proof -
  let ?v = "media_world\<lparr>signer := (\<lambda>b k. Inl (S3Error ''AccessDenied''))\<rparr>"
  let ?w1 = "logger_debug (ensuring_presence ''uploads'') ''ensureDirectory''
               (logger_debug (writing_to ''uploads/abc'') ''saveFile'' uploads_is_a_file)"
  note R = rejections_are_MediaBackendErrors [of uploads_backend creating_uploads "''abc''"
      "[1, 2, 3]" fresh_world "()" media_backend,
      unfolded uploadDirectory_uploads getFilePath_uploads_abc]
  note S = rejections_are_MediaBackendErrors [of uploads_backend alone "''abc''" "[1, 2, 3]"
      uploads_is_a_file "()" media_backend, unfolded uploadDirectory_uploads getFilePath_uploads_abc]
  note T = rejections_are_MediaBackendErrors [of uploads_backend alone "''abc''" "[1, 2, 3]"
      fresh_world "()" media_backend, unfolded uploadDirectory_uploads getFilePath_uploads_abc]
  note U = rejections_are_MediaBackendErrors [of uploads_backend alone "''abc''" "[1, 2, 3]" ?v
      "()" media_backend]
  have ex: "\<exists>e. r = Inl e" if "isl r" for r :: "exn + 'a"
    using that by (cases r) simp_all
  have f1:
    "saveFile uploads_backend creating_uploads ''abc'' [1, 2, 3] fresh_world
       = (Inl (MediaBackendError (''Could not create '' @ [quote] @ ''uploads'' @ [quote])),
          logger_error (SystemError EEXIST) ''ensureDirectory''
            (at_mkdir uploads_backend creating_uploads ''abc'' fresh_world))"
    using race_access race_mkdir
    by (intro R [THEN conjunct2, THEN conjunct2, THEN conjunct2, THEN conjunct2, THEN conjunct2, THEN conjunct1, rule_format] conjI)
  have f2:
    "saveFile uploads_backend alone ''abc'' [1, 2, 3] uploads_is_a_file
       = (Inl (MediaBackendError (''Could not save file '' @ [quote] @ ''uploads/abc'' @ [quote])),
          logger_error (SystemError ENOTDIR) ''saveFile'' ?w1)"
    using failing_calls(1,2)
    by (intro S [THEN conjunct2, THEN conjunct2, THEN conjunct2, THEN conjunct2, THEN conjunct2, THEN conjunct2, THEN conjunct1, rule_format] conjI)
  have f3:
    "deleteFile uploads_backend ''abc'' () fresh_world
       = (Inl (MediaBackendError (''Could not delete file '' @ [quote] @ ''uploads/abc'' @ [quote])),
          logger_error (SystemError ENOENT) ''deleteFile'' fresh_world)"
    using failing_calls(3)
    by (intro T [THEN conjunct2, THEN conjunct2, THEN conjunct2, THEN conjunct2, THEN conjunct2, THEN conjunct2, THEN conjunct2, THEN conjunct1, rule_format])
  have f4:
    "s3_saveFile media_backend ''abc'' [1, 2, 3] fresh_world
       = (Inl (MediaBackendError (''Could not save file '' @ ''abc'' @ '' on S3'')),
          logger_error (S3Error ''NoSuchBucket'') ''saveFile'' fresh_world)"
    using failing_requests(1,2,3)
    by (intro T [THEN conjunct2, THEN conjunct2, THEN conjunct2, THEN conjunct2, THEN conjunct2, THEN conjunct2, THEN conjunct2, THEN conjunct2, THEN conjunct1, rule_format] conjI)
  have f5:
    "s3_deleteFile media_backend ''abc'' () fresh_world
       = (Inl (MediaBackendError (''Could not delete '' @ [quote] @ ''abc'' @ [quote] @ '' on S3'')),
          logger_error (S3Error ''NoSuchBucket'') ''deleteFile'' fresh_world)"
    using failing_requests(1,2,4)
    by (intro T [THEN conjunct2, THEN conjunct2, THEN conjunct2, THEN conjunct2, THEN conjunct2, THEN conjunct2, THEN conjunct2, THEN conjunct2, THEN conjunct2, THEN conjunct1, rule_format] conjI)
  have f6:
    "s3_getFileUrl media_backend ''abc'' () ?v
       = (Inl (MediaBackendError (''Could not get URL for '' @ [quote] @ ''abc'' @ [quote] @ '' on S3'')),
          logger_error (S3Error ''AccessDenied'') ''getFileUrl'' ?v)"
    using failing_requests(1,2,5)
    by (intro U [THEN conjunct2, THEN conjunct2, THEN conjunct2, THEN conjunct2, THEN conjunct2, THEN conjunct2, THEN conjunct2, THEN conjunct2, THEN conjunct2, THEN conjunct2, rule_format] conjI)
  from ex [OF rejected_runs(1)] obtain e1
    where e1: "fst (saveFile uploads_backend alone ''abc'' [1, 2, 3] uploads_is_a_file) = Inl e1"
    by blast
  have a: "e1 = MediaBackendError (''Could not create '' @ [quote] @ ''uploads'' @ [quote])
      \<or> e1 = MediaBackendError (''Could not save file '' @ [quote] @ ''uploads/abc'' @ [quote])"
    using e1 by (rule S [THEN conjunct1, rule_format])
  from ex [OF deleteFile_fresh_world] obtain e2
    where e2: "fst (deleteFile uploads_backend ''abc'' () fresh_world) = Inl e2"
    by blast
  have b: "e2 = MediaBackendError (''Could not delete file '' @ [quote] @ ''uploads/abc'' @ [quote])"
    using e2 by (rule T [THEN conjunct2, THEN conjunct1, rule_format])
  from ex [OF rejected_runs(2)] obtain e3
    where e3: "fst (s3_saveFile media_backend ''abc'' [1, 2, 3] fresh_world) = Inl e3"
    by blast
  have c: "e3 = MediaBackendError (''Could not save file '' @ ''abc'' @ '' on S3'')"
    using e3 by (rule T [THEN conjunct2, THEN conjunct2, THEN conjunct1, rule_format])
  from ex [OF rejected_runs(3)] obtain e4
    where e4: "fst (s3_deleteFile media_backend ''abc'' () fresh_world) = Inl e4"
    by blast
  have d: "e4 = MediaBackendError (''Could not delete '' @ [quote] @ ''abc'' @ [quote] @ '' on S3'')"
    using e4 by (rule T [THEN conjunct2, THEN conjunct2, THEN conjunct2, THEN conjunct1, rule_format])
  from ex [OF s3_getFileUrl_no_signature] obtain e5
    where e5: "fst (s3_getFileUrl media_backend ''abc'' () ?v) = Inl e5"
    by blast
  have e: "e5 = MediaBackendError (''Could not get URL for '' @ [quote] @ ''abc'' @ [quote] @ '' on S3'')"
    using e5 by (rule U [THEN conjunct2, THEN conjunct2, THEN conjunct2, THEN conjunct2, THEN conjunct1, rule_format])
  from e1 a have a': "fst (saveFile uploads_backend alone ''abc'' [1, 2, 3] uploads_is_a_file)
      = Inl (MediaBackendError (''Could not create '' @ [quote] @ ''uploads'' @ [quote]))
    \<or> fst (saveFile uploads_backend alone ''abc'' [1, 2, 3] uploads_is_a_file)
      = Inl (MediaBackendError (''Could not save file '' @ [quote] @ ''uploads/abc'' @ [quote]))"
    by (simp only:) blast
  from race_access race_mkdir f1 failing_calls(1,2) f2 failing_calls(3) f3
    failing_requests(1,2,3) f4 failing_requests(4) f5 failing_requests(5) f6
    a' e2 [unfolded b] e3 [unfolded c] e4 [unfolded d] e5 [unfolded e]
  show ?thesis
    by (intro conjI)
qed

text \<open>
  C5. On the filesystem backend, when \<^verbatim>\<open>saveFile(id, c1)\<close> has been fulfilled, a
  following \<^verbatim>\<open>saveFile(id, c2)\<close> is fulfilled too and a read of the joined path then
  yields exactly \<open>c2\<close>. On the S3 backend, when \<^verbatim>\<open>saveFile(id, c1)\<close> has been
  fulfilled, a following \<^verbatim>\<open>saveFile(id, c2)\<close> is fulfilled too and the object named
  \<open>id\<close> in the configured bucket then is exactly \<open>c2\<close>.
\<close>

theorem saveFile_overwrites:
  "(saveFile this others uuid c1 w = (Inr (), w1) \<longrightarrow>
      (\<exists>w2. saveFile this others' uuid c2 w1 = (Inr (), w2)
         \<and> fs_readFile (getFilePath this uuid) w2 = Inr c2))
   \<and> (s3_saveFile that uuid c1 v = (Inr (), v1) \<longrightarrow>
      (\<exists>v2 cfg. config that = Some cfg \<and> s3_saveFile that uuid c2 v1 = (Inr (), v2)
         \<and> getObject (bucket cfg) uuid v2 = Inr c2))"
  using saveFile_again [of this others uuid c1 w w1 others' c2]
    s3_saveFile_again [of that uuid c1 v v1 c2]
  by (intro conjI impI)

theorem saveFile_overwrites_witness:
  "fst (saveFile uploads_backend alone ''abc'' [1, 2, 3] fresh_world) = Inr ()
   \<and> (\<exists>w2. saveFile uploads_backend alone ''abc'' [4, 5]
              (snd (saveFile uploads_backend alone ''abc'' [1, 2, 3] fresh_world)) = (Inr (), w2)
          \<and> fs_readFile ''uploads/abc'' w2 = Inr [4, 5])
   \<and> fst (s3_saveFile media_backend ''abc'' [1, 2, 3] media_world) = Inr ()
   \<and> (\<exists>v2. s3_saveFile media_backend ''abc'' [4, 5]
              (snd (s3_saveFile media_backend ''abc'' [1, 2, 3] media_world)) = (Inr (), v2)
          \<and> getObject ''media'' ''abc'' v2 = Inr [4, 5])"
proof -
  let ?w1 = "snd (saveFile uploads_backend alone ''abc'' [1, 2, 3] fresh_world)"
  let ?v1 = "snd (s3_saveFile media_backend ''abc'' [1, 2, 3] media_world)"
  have h: "saveFile uploads_backend alone ''abc'' [1, 2, 3] fresh_world = (Inr (), ?w1)"
    using saveFile_fresh_world by (simp add: prod_eq_iff)
  have g: "s3_saveFile media_backend ''abc'' [1, 2, 3] media_world = (Inr (), ?v1)"
    using s3_saveFile_media_world by (simp add: prod_eq_iff)
  note T = saveFile_overwrites [of uploads_backend alone "''abc''" "[1, 2, 3]" fresh_world ?w1
      alone "[4, 5]" media_backend media_world ?v1]
  from T h have a: "\<exists>w2. saveFile uploads_backend alone ''abc'' [4, 5] ?w1 = (Inr (), w2)
          \<and> fs_readFile (getFilePath uploads_backend ''abc'') w2 = Inr [4, 5]"
    by (rule conjunct1 [THEN mp])
  from T g have "\<exists>v2 cfg. config media_backend = Some cfg
      \<and> s3_saveFile media_backend ''abc'' [4, 5] ?v1 = (Inr (), v2)
      \<and> getObject (bucket cfg) ''abc'' v2 = Inr [4, 5]"
    by (rule conjunct2 [THEN mp])
  then have b: "\<exists>v2. s3_saveFile media_backend ''abc'' [4, 5] ?v1 = (Inr (), v2)
      \<and> getObject ''media'' ''abc'' v2 = Inr [4, 5]"
    by (auto simp: media_backend_def media_config_def)
  from a have a': "\<exists>w2. saveFile uploads_backend alone ''abc'' [4, 5] ?w1 = (Inr (), w2)
          \<and> fs_readFile ''uploads/abc'' w2 = Inr [4, 5]"
    by (simp only: getFilePath_uploads_abc)
  from saveFile_fresh_world a' s3_saveFile_media_world b show ?thesis
    by (intro conjI)
qed

end
